theory Spec2Isabelle
  imports Complex_Main
begin

section \<open>Errors and tensors\<close>

text \<open>
  The notebook \<^verbatim>\<open>correspondence.ipynb\<close> is a driver: it builds a network from layers of
  the repository's own library, trains it for a fixed number of epochs and evaluates it.
  Every exception an operation of the driver can raise is a value of \<open>error\<close>; an
  exception is never caught in the notebook, so the first one ends the run.
\<close>

datatype error = IndexError | ZeroDivisionError | ValueError | RuntimeError

text \<open>
  Tensors are nested lists of reals (the idealised values of the float entries).
  A matrix \<open>[V, C]\<close> is a list of \<open>V\<close> rows. A feature tensor \<open>[V, S, C, 2]\<close> is, for every
  vertex, a list of \<open>S\<close> rotation-order streams, each a list of \<open>C\<close> channels; the last
  axis of size two is the complex number of the channel, kept as a pair. Axis 2 is
  therefore the channel list. An empty list stands for every tensor with no rows.
\<close>

type_synonym vec = "real list"
type_synonym mat = "real list list"
type_synonym feat = "(real \<times> real) list list list"

subsection \<open>Operations of the tensor library that the notebook calls\<close>

text \<open>\<^verbatim>\<open>F.relu\<close>: the positive part of every entry.\<close>

definition relu :: "mat \<Rightarrow> mat" where
  "relu x = map (map (max 0)) x"

text \<open>\<^verbatim>\<open>torch.zeros_like\<close>: zeros in the shape of the argument.\<close>

definition zeros_like :: "mat \<Rightarrow> mat" where
  "zeros_like x = map (map (\<lambda>_. 0)) x"

text \<open>
  \<^verbatim>\<open>torch.stack((x, z), dim=-1)\<close> of two matrices of one shape pairs their entries
  (real part, imaginary part); \<^verbatim>\<open>.unsqueeze(1)\<close> then wraps every vertex in a single
  stream.
\<close>

definition stack_last :: "mat \<Rightarrow> mat \<Rightarrow> (real \<times> real) list list" where
  "stack_last x z = map2 zip x z"

definition unsqueeze1 :: "(real \<times> real) list list \<Rightarrow> feat" where
  "unsqueeze1 x = map (\<lambda>v. [v]) x"

text \<open>
  \<^verbatim>\<open>torch.cat((x, y), dim=2)\<close>: the channel lists are appended, vertex by vertex and
  stream by stream. The sizes of the other axes have to agree, or the call raises.
\<close>

definition cat_dim2 :: "feat \<Rightarrow> feat \<Rightarrow> error + feat" where
  "cat_dim2 x y =
     (if length x = length y \<and> list_all2 (\<lambda>a b. length a = length b) x y
      then Inr (map2 (map2 (@)) x y)
      else Inl RuntimeError)"

text \<open>
  \<^verbatim>\<open>x.sum(dim=1)\<close> on the result \<open>[V, S, C]\<close> of \<^verbatim>\<open>magnitudes\<close>: the streams of a vertex are
  added channel by channel. The tensor is held, for every vertex and every channel, as
  the list of the \<open>S\<close> entries of the channel, one per stream: the sum over the streams is
  then the sum of each of these lists, and a tensor with no stream sums to \<open>C\<close> zeros, as
  in the library.
\<close>

definition sum_dim1 :: "real list list list \<Rightarrow> mat" where
  "sum_dim1 x = map (map sum_list) x"

text \<open>
  \<^verbatim>\<open>nn.Linear(in_features, out_features)\<close>. The two sizes are fixed when the layer is
  constructed; the weight \<open>[out, in]\<close> and the bias \<open>[out]\<close> are parameters, read by
  index. Applied to a matrix whose rows are not of length \<open>in_features\<close> it raises.
\<close>

record linear =
  in_features :: nat
  out_features :: nat

record linear_params =
  weight :: "nat \<Rightarrow> nat \<Rightarrow> real"
  bias :: "nat \<Rightarrow> real"

definition Linear :: "linear \<Rightarrow> linear_params \<Rightarrow> mat \<Rightarrow> error + mat" where
  "Linear l w x =
     (if list_all (\<lambda>row. length row = in_features l) x
      then Inr (map (\<lambda>row. map (\<lambda>j. (\<Sum>i\<leftarrow>[0..<in_features l]. weight w j i * row ! i) + bias w j)
                              [0..<out_features l]) x)
      else Inl RuntimeError)"

text \<open>
  \<^verbatim>\<open>F.dropout(x, training=t)\<close> with the default rate one half: outside training mode the
  identity; in training mode an entry is either zeroed or doubled. Which entries are
  zeroed is random; the draw is the argument \<open>zeroed\<close>.
\<close>

definition dropout :: "(nat \<Rightarrow> nat \<Rightarrow> bool) \<Rightarrow> bool \<Rightarrow> mat \<Rightarrow> mat" where
  "dropout zeroed t x =
     (if t then map (\<lambda>(i, row). map (\<lambda>(j, v). if zeroed i j then 0 else 2 * v) (enumerate 0 row))
                    (enumerate 0 x)
      else x)"

text \<open>\<^verbatim>\<open>F.log_softmax(x, dim=1)\<close>: every row minus the logarithm of the sum of its exponentials.\<close>

definition log_softmax :: "mat \<Rightarrow> mat" where
  "log_softmax x = map (\<lambda>row. map (\<lambda>v. v - ln (\<Sum>u\<leftarrow>row. exp u)) row) x"

text \<open>
  \<^verbatim>\<open>F.nll_loss(input, target)\<close> with the default mean reduction. The input has one row per
  target entry, or the call raises a \<^verbatim>\<open>ValueError\<close>; a label outside the row raises an
  \<^verbatim>\<open>IndexError\<close> (on a CUDA device the same label ends the run with a \<^verbatim>\<open>RuntimeError\<close>).
  Over no target entries at all the mean is not a number.
\<close>

datatype loss = Loss real | Not_a_number

definition nll_loss :: "mat \<Rightarrow> nat list \<Rightarrow> error + loss" where
  "nll_loss input tgt =
     (if length input \<noteq> length tgt then Inl ValueError
      else if \<not> list_all2 (\<lambda>row t. t < length row) input tgt then Inl IndexError
      else if tgt = [] then Inr Not_a_number
      else Inr (Loss (- (\<Sum>(row, t)\<leftarrow>zip input tgt. row ! t) / real (length tgt))))"

text \<open>
  \<^verbatim>\<open>x.max(1)[1]\<close> on a matrix \<open>[V, c]\<close>: for every row the index of its largest entry (the
  first one, when several entries are largest). Rows without entries have no largest
  one: when the size \<open>c\<close> of axis 1 is zero the call raises an \<^verbatim>\<open>IndexError\<close>, also on a
  matrix with no rows. A tensor carries the size of its axes; a nested list with no rows
  does not, so the size is an argument here.
\<close>

fun argmax :: "real list \<Rightarrow> nat" where
  "argmax [] = 0"
| "argmax [x] = 0"
| "argmax (x # y # ys) = (let j = argmax (y # ys) in if x < (y # ys) ! j then Suc j else 0)"

definition max_dim1_indices :: "nat \<Rightarrow> mat \<Rightarrow> error + nat list" where
  "max_dim1_indices c x =
     (if c = 0 \<or> list_ex (\<lambda>row. row = []) x then Inl IndexError else Inr (map argmax x))"

text \<open>
  \<^verbatim>\<open>pred.eq(target).sum().item()\<close>: the number of positions at which the two index
  vectors agree. Comparison broadcasts: an operand of length one is compared with every
  entry of the other; two lengths that differ and are both not one raise.
\<close>

definition eq_sum :: "nat list \<Rightarrow> nat list \<Rightarrow> error + nat" where
  "eq_sum pred tgt =
     (if length pred = length tgt then Inr (length (filter (\<lambda>(p, t). p = t) (zip pred tgt)))
      else if length pred = 1 then Inr (length (filter (\<lambda>t. hd pred = t) tgt))
      else if length tgt = 1 then Inr (length (filter (\<lambda>p. p = hd tgt) pred))
      else Inl RuntimeError)"

section \<open>Settings, mesh samples and the library's layers\<close>

text \<open>The settings cell: the values the network is built from.\<close>

definition max_order :: nat where
  "max_order = 1"

definition n_rings :: nat where
  "n_rings = 2"

definition nf :: "nat list" where
  "nf = [16, 32]"

definition batch_size :: nat where
  "batch_size = 1"

text \<open>
  A mesh sample carries its vertex positions (a matrix \<open>[V, 3]\<close>) and geometric attributes
  whose content the driver never inspects: values of the type parameter \<open>'g\<close>. The driver
  names three of them (\<open>edge_index\<close>, \<open>precomp\<close>, \<open>connection\<close>); \<open>other\<close> is all the rest.
  The number of nodes of a sample is the number of its position rows.
\<close>

record 'g data =
  pos :: mat
  edge_index :: 'g
  precomp :: 'g
  connection :: 'g
  other :: 'g

definition data_num_nodes :: "'g data \<Rightarrow> nat" where
  "data_num_nodes d = length (pos d)"

text \<open>\<^verbatim>\<open>data.to(device)\<close> moves a sample to the compute device; its content is the same.\<close>

definition to_device :: "'g data \<Rightarrow> 'g data" where
  "to_device d = d"

text \<open>The eight residual blocks of the network, by the name of their attribute.\<close>

datatype block_name = B11 | B12 | B21 | B22 | B31 | B32 | B41 | B42

text \<open>
  The constructor arguments of a \<^verbatim>\<open>HarmonicResNetBlock\<close>; \<open>None\<close> for \<open>prev_order\<close> is the
  library's default.
\<close>

record block_spec =
  in_channels :: nat
  out_channels :: nat
  block_max_order :: nat
  block_n_rings :: nat
  prev_order :: "nat option"
  last_layer :: bool

text \<open>
  The layers, the transforms and \<^verbatim>\<open>magnitudes\<close> are code of the repository's modules
  \<^verbatim>\<open>nn\<close>, \<^verbatim>\<open>transforms\<close> and \<^verbatim>\<open>utils\<close>, which the notebook imports. They are parameters
  of the model, any functions of the types the notebook uses them at:
  a block maps features and the three attributes of a scale to features and reads the
  parameters \<open>'p\<close> of the block named; pooling to a scale maps features and a sample to
  pooled features, a sample and the pooled sample (it holds the transform of the coarse
  scale, \<^verbatim>\<open>scale1_transform\<close>); unpooling maps features and a sample to features;
  \<^verbatim>\<open>magnitudes\<close> maps features to the real tensor \<open>[V, S, C]\<close> of their absolute values,
  held per vertex and channel as said above. Each may raise.
\<close>

record ('g, 'p) library =
  HarmonicResNetBlock :: "block_name \<Rightarrow> block_spec \<Rightarrow> 'p \<Rightarrow> feat \<Rightarrow> 'g \<Rightarrow> 'g \<Rightarrow> 'g \<Rightarrow> error + feat"
  ParallelTransportPool :: "nat \<Rightarrow> feat \<Rightarrow> 'g data \<Rightarrow> error + feat \<times> 'g data \<times> 'g data"
  ParallelTransportUnpool :: "nat \<Rightarrow> feat \<Rightarrow> 'g data \<Rightarrow> error + feat"
  magnitudes :: "feat \<Rightarrow> error + real list list list"
  scale0_transform :: "'g data \<Rightarrow> error + 'g data"

text \<open>
  A forward pass leaves a record of the calls it made to the library: the arguments of
  each call and what it returned.
\<close>

datatype 'g call =
    Scale0_transform "'g data" "error + 'g data"
  | Block block_name feat "'g \<times> 'g \<times> 'g" "error + feat"
  | Pool feat "'g data" "error + feat \<times> 'g data \<times> 'g data"
  | Unpool feat "'g data" "error + feat"
  | Magnitudes feat "error + real list list list"

type_synonym ('g, 'a) traced = "'g call list \<times> (error + 'a)"

text \<open>
  Sequencing: the rest of the function runs on the value of a step that returned, and the
  calls of both are recorded in order; a step that raised ends the function.
\<close>

definition and_then :: "('g, 'a) traced \<Rightarrow> ('a \<Rightarrow> ('g, 'b) traced) \<Rightarrow> ('g, 'b) traced" where
  "and_then m f =
     (case m of
        (cs, Inl e) \<Rightarrow> (cs, Inl e)
      | (cs, Inr a) \<Rightarrow> (case f a of (cs', r) \<Rightarrow> (cs @ cs', r)))"

definition tensor_op :: "error + 'a \<Rightarrow> ('g, 'a) traced" where
  "tensor_op r = ([], r)"

definition call_scale0_transform :: "('g, 'p) library \<Rightarrow> 'g data \<Rightarrow> ('g, 'g data) traced" where
  "call_scale0_transform lib d = (let r = scale0_transform lib d in ([Scale0_transform d r], r))"

definition call_block ::
  "('g, 'p) library \<Rightarrow> block_name \<Rightarrow> block_spec \<Rightarrow> 'p \<Rightarrow> feat \<Rightarrow> 'g \<times> 'g \<times> 'g \<Rightarrow> ('g, feat) traced" where
  "call_block lib b spec p x attributes =
     (case attributes of (e, k, c) \<Rightarrow>
        (let r = HarmonicResNetBlock lib b spec p x e k c in ([Block b x attributes r], r)))"

definition call_pool ::
  "('g, 'p) library \<Rightarrow> nat \<Rightarrow> feat \<Rightarrow> 'g data \<Rightarrow> ('g, feat \<times> 'g data \<times> 'g data) traced" where
  "call_pool lib scale x d = (let r = ParallelTransportPool lib scale x d in ([Pool x d r], r))"

definition call_unpool :: "('g, 'p) library \<Rightarrow> nat \<Rightarrow> feat \<Rightarrow> 'g data \<Rightarrow> ('g, feat) traced" where
  "call_unpool lib scale x d = (let r = ParallelTransportUnpool lib scale x d in ([Unpool x d r], r))"

definition call_magnitudes :: "('g, 'p) library \<Rightarrow> feat \<Rightarrow> ('g, real list list list) traced" where
  "call_magnitudes lib x = (let r = magnitudes lib x in ([Magnitudes x r], r))"

section \<open>The network\<close>

text \<open>
  \<^verbatim>\<open>Net.__init__\<close>: the layers and their sizes. The last dense layer has \<open>num_nodes\<close>
  outputs, the value of the global of that name when the network is constructed.
\<close>

record net =
  lin0 :: linear
  resnet_block11 :: block_spec
  resnet_block12 :: block_spec
  pool :: nat
  resnet_block21 :: block_spec
  resnet_block22 :: block_spec
  resnet_block31 :: block_spec
  resnet_block32 :: block_spec
  unpool :: nat
  resnet_block41 :: block_spec
  resnet_block42 :: block_spec
  lin3 :: linear
  lin4 :: linear

definition block :: "nat \<Rightarrow> nat \<Rightarrow> block_spec" where
  "block c_in c_out =
     \<lparr>in_channels = c_in, out_channels = c_out, block_max_order = max_order, block_n_rings = n_rings,
      prev_order = None, last_layer = False\<rparr>"

definition Net_init :: "nat \<Rightarrow> net" where
  "Net_init num_nodes =
     \<lparr>lin0 = \<lparr>in_features = 3, out_features = nf ! 0\<rparr>,
      resnet_block11 = (block (nf ! 0) (nf ! 0))\<lparr>prev_order := Some 0\<rparr>,
      resnet_block12 = block (nf ! 0) (nf ! 0),
      pool = 1,
      resnet_block21 = block (nf ! 0) (nf ! 1),
      resnet_block22 = block (nf ! 1) (nf ! 1),
      resnet_block31 = block (nf ! 1) (nf ! 1),
      resnet_block32 = block (nf ! 1) (nf ! 1),
      unpool = 1,
      resnet_block41 = block (nf ! 1 + nf ! 0) (nf ! 0),
      resnet_block42 = (block (nf ! 0) (nf ! 0))\<lparr>last_layer := True\<rparr>,
      lin3 = \<lparr>in_features = nf ! 0, out_features = 256\<rparr>,
      lin4 = \<lparr>in_features = 256, out_features = num_nodes\<rparr>\<rparr>"

text \<open>The three dense layers, to read their weights from the parameters.\<close>

datatype dense_name = Lin0 | Lin3 | Lin4

text \<open>
  \<^verbatim>\<open>Net.forward\<close>, statement by statement. The arguments beside the sample are what the
  pass reads from the model: its layers \<open>nt\<close>, the current parameters \<open>p\<close> (with \<open>weights_of\<close>
  to read the weights of a dense layer from them), the mode flag \<open>training\<close>, and the draw
  of the dropout.
\<close>

definition forward ::
  "('g, 'p) library \<Rightarrow> ('p \<Rightarrow> dense_name \<Rightarrow> linear_params) \<Rightarrow> net \<Rightarrow> 'p \<Rightarrow> bool \<Rightarrow> (nat \<Rightarrow> nat \<Rightarrow> bool)
     \<Rightarrow> 'g data \<Rightarrow> ('g, mat) traced" where
  "forward lib weights_of nt p training zeroed data =
     (let x = pos data in
      and_then (tensor_op (Linear (lin0 nt) (weights_of p Lin0) x)) (\<lambda>x.
      let x = relu x;
          x = unsqueeze1 (stack_last x (zeros_like x)) in
      and_then (call_scale0_transform lib data) (\<lambda>data_scale0.
      let attributes = (edge_index data_scale0, precomp data_scale0, connection data_scale0) in
      and_then (call_block lib B11 (resnet_block11 nt) p x attributes) (\<lambda>x.
      and_then (call_block lib B12 (resnet_block12 nt) p x attributes) (\<lambda>x_prepool.
      and_then (call_pool lib (pool nt) x_prepool data) (\<lambda>(x, data, data_pooled).
      let attributes_pooled = (edge_index data_pooled, precomp data_pooled, connection data_pooled) in
      and_then (call_block lib B21 (resnet_block21 nt) p x attributes_pooled) (\<lambda>x.
      and_then (call_block lib B22 (resnet_block22 nt) p x attributes_pooled) (\<lambda>x.
      and_then (call_block lib B31 (resnet_block31 nt) p x attributes_pooled) (\<lambda>x.
      and_then (call_block lib B32 (resnet_block32 nt) p x attributes_pooled) (\<lambda>x.
      and_then (call_unpool lib (unpool nt) x data) (\<lambda>x.
      and_then (tensor_op (cat_dim2 x x_prepool)) (\<lambda>x.
      and_then (call_block lib B41 (resnet_block41 nt) p x attributes) (\<lambda>x.
      and_then (call_block lib B42 (resnet_block42 nt) p x attributes) (\<lambda>x.
      and_then (call_magnitudes lib x) (\<lambda>x.
      let x = sum_dim1 x in
      and_then (tensor_op (Linear (lin3 nt) (weights_of p Lin3) x)) (\<lambda>x.
      let x = relu x;
          x = dropout zeroed training x in
      and_then (tensor_op (Linear (lin4 nt) (weights_of p Lin4) x)) (\<lambda>x.
      tensor_op (Inr (log_softmax x)))))))))))))))))))"

section \<open>The state of the notebook and the tensor runtime\<close>

text \<open>
  What the tensor runtime does behind the driver's calls is a parameter as well:
  how the weights of a dense layer are read from the parameters, the initial parameters
  and optimizer state, \<^verbatim>\<open>optimizer.zero_grad()\<close>, the gradient computation of
  \<^verbatim>\<open>.backward()\<close> (a function of all that the loss was computed from),
  \<^verbatim>\<open>optimizer.step()\<close> (it reads the parameter groups and updates the optimizer's
  internal state and the parameters), and the random draws: the order in which a
  shuffling loader yields the samples, and the entries a dropout zeroes. A draw depends
  on when it is made; the time is the number of calls made so far.
\<close>

record ('g, 'p, 'o) runtime =
  dense :: "'p \<Rightarrow> dense_name \<Rightarrow> linear_params"
  init_parameters :: 'p
  init_opt_state :: 'o
  zero_grad :: "'p \<Rightarrow> 'p"
  backward :: "'p \<Rightarrow> bool \<Rightarrow> (nat \<Rightarrow> nat \<Rightarrow> bool) \<Rightarrow> 'g data \<Rightarrow> nat list \<Rightarrow> 'p"
  adam_step :: "(string \<rightharpoonup> real) list \<Rightarrow> 'o \<Rightarrow> 'p \<Rightarrow> 'o \<times> 'p"
  shuffle :: "nat \<Rightarrow> 'g data list \<Rightarrow> 'g data list"
  dropout_draw :: "nat \<Rightarrow> nat \<Rightarrow> nat \<Rightarrow> bool"

text \<open>
  The calls the driver makes, in order, are kept as the history of the run. The entry
  of a forward pass holds the sample, the pass's calls to the library and its result;
  the entry of a loss holds the output and the target it was computed from, and the
  result; the entry of an optimizer step holds the parameter groups it read. The history
  is state that the run reads: its length is the time of a random draw, so that it
  stands for the state of the random generator, which every iteration over the
  shuffling loader and every dropout advance.
\<close>

datatype 'g event =
    Print_epoch nat
  | Model_train
  | Model_eval
  | To_device "'g data"
  | Zero_grad
  | Forward_pass "'g data" "'g call list" "error + mat"
  | Nll_loss mat "nat list" "error + loss"
  | Backward
  | Optimizer_step "(string \<rightharpoonup> real) list"

text \<open>
  The globals of the notebook that hold state: the model (its layers, its parameters and
  its mode flag), the optimizer (its internal state and its parameter groups, each a
  dictionary; of its keys the notebook touches only \<^verbatim>\<open>'lr'\<close>), \<open>target\<close> and \<open>num_nodes\<close>.
\<close>

record ('g, 'p, 'o) world =
  net :: net
  parameters :: 'p
  training :: bool
  opt_state :: 'o
  param_groups :: "(string \<rightharpoonup> real) list"
  target :: "nat list"
  num_nodes :: nat
  history :: "'g event list"

definition record_event :: "'g event \<Rightarrow> ('g, 'p, 'o) world \<Rightarrow> ('g, 'p, 'o) world" where
  "record_event ev s = s\<lparr>history := history s @ [ev]\<rparr>"

text \<open>
  The cells before the training: a shuffling loader over an empty training set cannot be
  constructed (a \<^verbatim>\<open>ValueError\<close>); \<open>num_nodes\<close> is read from the first training sample; the
  model is constructed (a new module is in training mode); the optimizer gets one
  parameter group with learning rate 0.01; and the target is \<^verbatim>\<open>torch.arange(num_nodes)\<close>.
\<close>

definition initial_world :: "('g, 'p, 'o) runtime \<Rightarrow> 'g data list \<Rightarrow> error + ('g, 'p, 'o) world" where
  "initial_world rt train_dataset =
     (case train_dataset of
        [] \<Rightarrow> Inl ValueError
      | d # _ \<Rightarrow>
          (let n = data_num_nodes d in
           Inr \<lparr>net = Net_init n,
                parameters = init_parameters rt,
                training = True,
                opt_state = init_opt_state rt,
                param_groups = [[''lr'' \<mapsto> 1 / 100]],
                target = [0..<n],
                num_nodes = n,
                history = []\<rparr>))"

text \<open>
  The loaders have batch size one: a batch is one sample. The training loader
  shuffles: every iteration over it yields the samples in a newly drawn order. The test
  loader yields them in the dataset's order.
\<close>

definition train_loader :: "('g, 'p, 'o) runtime \<Rightarrow> 'g data list \<Rightarrow> nat \<Rightarrow> 'g data list" where
  "train_loader rt train_dataset time = shuffle rt time train_dataset"

definition test_loader :: "'g data list \<Rightarrow> 'g data list" where
  "test_loader test_dataset = test_dataset"

section \<open>Training\<close>

text \<open>
  The body of the loop over the batches in \<^verbatim>\<open>train\<close>. The result is the exception that
  ended it, if one did, and the state it left.
\<close>

definition train_batch ::
  "('g, 'p) library \<Rightarrow> ('g, 'p, 'o) runtime \<Rightarrow> 'g data \<Rightarrow> ('g, 'p, 'o) world
     \<Rightarrow> error option \<times> ('g, 'p, 'o) world" where
  "train_batch lib rt data s =
     (let s = record_event (To_device data) s;
          data = to_device data;
          s = record_event Zero_grad (s\<lparr>parameters := zero_grad rt (parameters s)\<rparr>);
          zeroed = dropout_draw rt (length (history s));
          (calls, out) = forward lib (dense rt) (net s) (parameters s) (training s) zeroed data;
          s = record_event (Forward_pass data calls out) s
      in case out of
           Inl e \<Rightarrow> (Some e, s)
         | Inr y \<Rightarrow>
             (let loss = nll_loss y (target s);
                  s = record_event (Nll_loss y (target s) loss) s
              in case loss of
                   Inl e \<Rightarrow> (Some e, s)
                 | Inr l \<Rightarrow>
                     (let s = record_event Backward
                                (s\<lparr>parameters := backward rt (parameters s) (training s) zeroed data (target s)\<rparr>);
                          (st, p) = adam_step rt (param_groups s) (opt_state s) (parameters s);
                          s = record_event (Optimizer_step (param_groups s))
                                (s\<lparr>opt_state := st, parameters := p\<rparr>)
                      in (None, s))))"

fun train_batches ::
  "('g, 'p) library \<Rightarrow> ('g, 'p, 'o) runtime \<Rightarrow> 'g data list \<Rightarrow> ('g, 'p, 'o) world
     \<Rightarrow> error option \<times> ('g, 'p, 'o) world" where
  "train_batches lib rt [] s = (None, s)"
| "train_batches lib rt (data # rest) s =
     (case train_batch lib rt data s of
        (Some e, s') \<Rightarrow> (Some e, s')
      | (None, s') \<Rightarrow> train_batches lib rt rest s')"

text \<open>\<^verbatim>\<open>train(epoch)\<close>.\<close>

definition train ::
  "('g, 'p) library \<Rightarrow> ('g, 'p, 'o) runtime \<Rightarrow> 'g data list \<Rightarrow> nat \<Rightarrow> ('g, 'p, 'o) world
     \<Rightarrow> error option \<times> ('g, 'p, 'o) world" where
  "train lib rt train_dataset epoch s =
     (let s = record_event Model_train (s\<lparr>training := True\<rparr>);
          s = (if epoch = 60
               then s\<lparr>param_groups := map (\<lambda>param_group. param_group(''lr'' \<mapsto> 1 / 1000)) (param_groups s)\<rparr>
               else s)
      in train_batches lib rt (train_loader rt train_dataset (length (history s))) s)"

text \<open>
  The training cell, \<^verbatim>\<open>for epoch in range(100)\<close>: the loop over a list of epochs, and the
  run over the hundred epochs of the notebook.
\<close>

fun epoch_loop ::
  "('g, 'p) library \<Rightarrow> ('g, 'p, 'o) runtime \<Rightarrow> 'g data list \<Rightarrow> nat list \<Rightarrow> ('g, 'p, 'o) world
     \<Rightarrow> error option \<times> ('g, 'p, 'o) world" where
  "epoch_loop lib rt train_dataset [] s = (None, s)"
| "epoch_loop lib rt train_dataset (epoch # rest) s =
     (case train lib rt train_dataset epoch (record_event (Print_epoch epoch) s) of
        (Some e, s') \<Rightarrow> (Some e, s')
      | (None, s') \<Rightarrow> epoch_loop lib rt train_dataset rest s')"

definition training_run ::
  "('g, 'p) library \<Rightarrow> ('g, 'p, 'o) runtime \<Rightarrow> 'g data list \<Rightarrow> ('g, 'p, 'o) world
     \<Rightarrow> error option \<times> ('g, 'p, 'o) world" where
  "training_run lib rt train_dataset s = epoch_loop lib rt train_dataset [0..<100] s"

section \<open>Testing\<close>

text \<open>
  The loop of \<^verbatim>\<open>test\<close> over the test loader, with the count \<open>correct\<close> so far, and \<^verbatim>\<open>test\<close>
  itself. The width of the output of the model is the number of outputs of its last
  dense layer. The quotient is a division of two integers: by zero it raises; otherwise
  its value is the quotient as a real number (the float returned is the nearest one).
\<close>

fun test_loop ::
  "('g, 'p) library \<Rightarrow> ('g, 'p, 'o) runtime \<Rightarrow> 'g data list \<Rightarrow> ('g, 'p, 'o) world \<Rightarrow> nat
     \<Rightarrow> (error + nat) \<times> ('g, 'p, 'o) world" where
  "test_loop lib rt [] s correct = (Inr correct, s)"
| "test_loop lib rt (data # rest) s correct =
     (let s = record_event (To_device data) s;
          data = to_device data;
          zeroed = dropout_draw rt (length (history s));
          (calls, out) = forward lib (dense rt) (net s) (parameters s) (training s) zeroed data;
          s = record_event (Forward_pass data calls out) s
      in case out of
           Inl e \<Rightarrow> (Inl e, s)
         | Inr y \<Rightarrow>
             (case max_dim1_indices (out_features (lin4 (net s))) y of
                Inl e \<Rightarrow> (Inl e, s)
              | Inr pred \<Rightarrow>
                  (case eq_sum pred (target s) of
                     Inl e \<Rightarrow> (Inl e, s)
                   | Inr c \<Rightarrow> test_loop lib rt rest s (correct + c))))"

definition test ::
  "('g, 'p) library \<Rightarrow> ('g, 'p, 'o) runtime \<Rightarrow> 'g data list \<Rightarrow> ('g, 'p, 'o) world
     \<Rightarrow> (error + real) \<times> ('g, 'p, 'o) world" where
  "test lib rt test_dataset s =
     (let s = record_event Model_eval (s\<lparr>training := False\<rparr>)
      in case test_loop lib rt (test_loader test_dataset) s 0 of
           (Inl e, s') \<Rightarrow> (Inl e, s')
         | (Inr correct, s') \<Rightarrow>
             if length test_dataset * num_nodes s' = 0 then (Inl ZeroDivisionError, s')
             else (Inr (real correct / real (length test_dataset * num_nodes s')), s'))"

text \<open>
  The cells of the notebook in their order: the globals are set up, the model is
  trained, and the value of \<^verbatim>\<open>test()\<close> is the accuracy that is printed.
\<close>

definition notebook ::
  "('g, 'p) library \<Rightarrow> ('g, 'p, 'o) runtime \<Rightarrow> 'g data list \<Rightarrow> 'g data list \<Rightarrow> error + real" where
  "notebook lib rt train_dataset test_dataset =
     (case initial_world rt train_dataset of
        Inl e \<Rightarrow> Inl e
      | Inr s \<Rightarrow>
          (case training_run lib rt train_dataset s of
             (Some e, s') \<Rightarrow> Inl e
           | (None, s') \<Rightarrow> fst (test lib rt test_dataset s')))"

section \<open>Notions the properties are stated with\<close>

text \<open>The learning rates of the optimizer: the entry \<^verbatim>\<open>'lr'\<close> of every parameter group.\<close>

definition learning_rates :: "('g, 'p, 'o) world \<Rightarrow> real option list" where
  "learning_rates s = map (\<lambda>param_group. param_group ''lr'') (param_groups s)"

text \<open>
  Two states have the same configuration when they differ at most in the parameters,
  the optimizer's internal state and the history.
\<close>

definition same_configuration :: "('g, 'p, 'o) world \<Rightarrow> ('g, 'p, 'o) world \<Rightarrow> bool" where
  "same_configuration s s' =
     (net s' = net s \<and> param_groups s' = param_groups s \<and> target s' = target s \<and>
      num_nodes s' = num_nodes s \<and> training s' = training s)"

text \<open>
  The name of the call an entry of the history records; the names of the calls of a
  batch, and of an epoch over \<open>n\<close> batches; and the epochs a history printed.
\<close>

fun call_name :: "'g event \<Rightarrow> string" where
  "call_name (Print_epoch _) = ''print''"
| "call_name Model_train = ''model.train''"
| "call_name Model_eval = ''model.eval''"
| "call_name (To_device _) = ''data.to''"
| "call_name Zero_grad = ''optimizer.zero_grad''"
| "call_name (Forward_pass _ _ _) = ''model''"
| "call_name (Nll_loss _ _ _) = ''F.nll_loss''"
| "call_name Backward = ''backward''"
| "call_name (Optimizer_step _) = ''optimizer.step''"

definition batch_calls :: "string list" where
  "batch_calls =
     [''data.to'', ''optimizer.zero_grad'', ''model'', ''F.nll_loss'', ''backward'', ''optimizer.step'']"

definition epoch_calls :: "nat \<Rightarrow> string list" where
  "epoch_calls n = ''print'' # ''model.train'' # concat (replicate n batch_calls)"

definition epochs_printed :: "'g event list \<Rightarrow> nat list" where
  "epochs_printed h = concat (map (\<lambda>ev. case ev of Print_epoch e \<Rightarrow> [e] | _ \<Rightarrow> []) h)"



text \<open>
  Every loss in a history is computed from the output of the forward pass recorded just
  before it and from the target \<open>tg\<close>, and is the negative log-likelihood of the two.
\<close>

definition losses_on_target :: "nat list \<Rightarrow> 'g event list \<Rightarrow> bool" where
  "losses_on_target tg h =
     (\<forall>i < length h. \<forall>y t l. h ! i = Nll_loss y t l \<longrightarrow>
        t = tg \<and> l = nll_loss y tg \<and> 0 < i \<and> (\<exists>d cs. h ! (i - 1) = Forward_pass d cs (Inr y)))"

text \<open>The blocks a pass called, in order, each with the attributes it was called with.\<close>

definition block_attributes :: "'g call list \<Rightarrow> (block_name \<times> 'g \<times> 'g \<times> 'g) list" where
  "block_attributes cs = concat (map (\<lambda>c. case c of Block b x a res \<Rightarrow> [(b, a)] | _ \<Rightarrow> []) cs)"

text \<open>
  The features a pass gave to a block, the features a block returned to it, and the
  features the unpooling returned; and the number of channels of a feature tensor, the
  size of axis 2, read at the first stream of the first vertex.
\<close>

definition block_inputs :: "block_name \<Rightarrow> 'g call list \<Rightarrow> feat list" where
  "block_inputs b cs =
     concat (map (\<lambda>c. case c of Block b' x a res \<Rightarrow> if b' = b then [x] else [] | _ \<Rightarrow> []) cs)"

definition block_outputs :: "block_name \<Rightarrow> 'g call list \<Rightarrow> feat list" where
  "block_outputs b cs =
     concat (map (\<lambda>c. case c of Block b' x a (Inr y) \<Rightarrow> if b' = b then [y] else [] | _ \<Rightarrow> []) cs)"

definition unpool_outputs :: "'g call list \<Rightarrow> feat list" where
  "unpool_outputs cs = concat (map (\<lambda>c. case c of Unpool x d (Inr y) \<Rightarrow> [y] | _ \<Rightarrow> []) cs)"

definition channels :: "feat \<Rightarrow> nat" where
  "channels x = (case x of [] \<Rightarrow> 0 | v # _ \<Rightarrow> (case v of [] \<Rightarrow> 0 | s # _ \<Rightarrow> length s))"

text \<open>
  The pooling and the unpooling of a pass are paired when the pass called the pooling
  once, it returned, and every call of the unpooling was given the sample that this call
  returned as its second result; or when the pass did not call the unpooling.
\<close>

definition is_pool :: "'g call \<Rightarrow> bool" where
  "is_pool c = (case c of Pool x d r \<Rightarrow> True | _ \<Rightarrow> False)"

definition unpool_samples :: "'g call list \<Rightarrow> 'g data list" where
  "unpool_samples cs = concat (map (\<lambda>c. case c of Unpool x d r \<Rightarrow> [d] | _ \<Rightarrow> []) cs)"

definition pooling_paired :: "'g call list \<Rightarrow> bool" where
  "pooling_paired cs =
     (case filter is_pool cs of
        [Pool x d (Inr (x', d', dp))] \<Rightarrow> list_all (\<lambda>u. u = d') (unpool_samples cs)
      | _ \<Rightarrow> unpool_samples cs = [])"

text \<open>
  The prediction of the model for a sample in evaluation mode,
  \<^verbatim>\<open>model(data.to(device)).max(1)[1]\<close>: one vertex index for every row of the output.
\<close>

definition predict ::
  "('g, 'p) library \<Rightarrow> ('g, 'p, 'o) runtime \<Rightarrow> ('g, 'p, 'o) world \<Rightarrow> 'g data \<Rightarrow> error + nat list" where
  "predict lib rt s data =
     (case snd (forward lib (dense rt) (net s) (parameters s) False (\<lambda>i j. False) (to_device data)) of
        Inl e \<Rightarrow> Inl e
      | Inr y \<Rightarrow> max_dim1_indices (out_features (lin4 (net s))) y)"

text \<open>
  What the loop of \<^verbatim>\<open>test\<close> adds to its count for a sample:
  \<^verbatim>\<open>pred.eq(target).sum().item()\<close>.
\<close>

definition sample_matches ::
  "('g, 'p) library \<Rightarrow> ('g, 'p, 'o) runtime \<Rightarrow> ('g, 'p, 'o) world \<Rightarrow> 'g data \<Rightarrow> error + nat" where
  "sample_matches lib rt s data =
     (case predict lib rt s data of Inl e \<Rightarrow> Inl e | Inr pred \<Rightarrow> eq_sum pred (target s))"

text \<open>
  The number of correct predictions as the specification words it: a vertex is predicted
  correctly when the index predicted for it is its own.
\<close>

definition correct_vertices :: "error + nat list \<Rightarrow> nat" where
  "correct_vertices r =
     (case r of Inl e \<Rightarrow> 0 | Inr pred \<Rightarrow> length (filter (\<lambda>i. pred ! i = i) [0..<length pred]))"

text \<open>The model predicts one index for every vertex of a sample.\<close>

definition predicts_per_vertex ::
  "('g, 'p) library \<Rightarrow> ('g, 'p, 'o) runtime \<Rightarrow> ('g, 'p, 'o) world \<Rightarrow> 'g data \<Rightarrow> bool" where
  "predicts_per_vertex lib rt s data =
     (case predict lib rt s data of Inl e \<Rightarrow> False | Inr pred \<Rightarrow> length pred = data_num_nodes data)"

text \<open>
  What the entries that a loop over batches adds to the history of a state \<open>s\<close> have in
  common: the losses are computed on the target of \<open>s\<close>, no epoch is printed, an
  optimizer step reads the parameter groups of \<open>s\<close>, and a forward pass recorded is a
  pass of the network of \<open>s\<close>.
\<close>

definition batch_events_ok ::
  "('g, 'p) library \<Rightarrow> ('g, 'p, 'o) runtime \<Rightarrow> ('g, 'p, 'o) world \<Rightarrow> 'g event list \<Rightarrow> bool" where
  "batch_events_ok lib rt s new =
     (losses_on_target (target s) new \<and> epochs_printed new = [] \<and>
      (\<forall>gs. Optimizer_step gs \<in> set new \<longrightarrow> gs = param_groups s) \<and>
      (\<forall>d cs r. Forward_pass d cs r \<in> set new \<longrightarrow>
         (\<exists>p tr z. forward lib (dense rt) (net s) p tr z d = (cs, r))))"

section \<open>A small instance\<close>

text \<open>
  An instance of the parameters to run the notebook on: blocks that return zero features
  of their output width on two streams, a pooling to the first vertex that returns a
  changed sample, an unpooling that copies the first coarse vertex to every vertex,
  the absolute values of the channels stream by stream,
  dense layers with zero weights and bias \<open>j\<close> at output \<open>j\<close>, an optimizer that counts
  its steps, a loader that reverses the dataset, and samples of \<open>V\<close> vertices at the
  origin.
\<close>

definition zero_features :: "nat \<Rightarrow> (real \<times> real) list list" where
  "zero_features c = replicate 2 (replicate c (0, 0))"

definition toy_magnitudes :: "feat \<Rightarrow> real list list list" where
  "toy_magnitudes x =
     map (\<lambda>v. map (\<lambda>c. map (\<lambda>s. case s ! c of (a, b) \<Rightarrow> sqrt (a * a + b * b)) v) [0..<channels [v]]) x"

definition toy_library :: "(nat, nat) library" where
  "toy_library =
     \<lparr>HarmonicResNetBlock =
        (\<lambda>b spec p x e k c. Inr (replicate (length x) (zero_features (out_channels spec)))),
      ParallelTransportPool =
        (\<lambda>scale x d. Inr (take 1 x, d\<lparr>edge_index := 2\<rparr>,
                          d\<lparr>pos := take 1 (pos d), edge_index := 1, precomp := 1, connection := 1\<rparr>)),
      ParallelTransportUnpool =
        (\<lambda>scale x d. Inr (replicate (length (pos d)) (case x of [] \<Rightarrow> [] | v # _ \<Rightarrow> v))),
      magnitudes = (\<lambda>x. Inr (toy_magnitudes x)),
      scale0_transform = (\<lambda>d. Inr d)\<rparr>"

definition toy_runtime :: "(nat, nat, nat) runtime" where
  "toy_runtime =
     \<lparr>dense = (\<lambda>p name. \<lparr>weight = (\<lambda>j i. 0), bias = (\<lambda>j. real j)\<rparr>),
      init_parameters = 0,
      init_opt_state = 0,
      zero_grad = (\<lambda>p. p),
      backward = (\<lambda>p t z d tg. p),
      adam_step = (\<lambda>gs st p. (Suc st, Suc p)),
      shuffle = (\<lambda>time ds. rev ds),
      dropout_draw = (\<lambda>time i j. even (time + i + j))\<rparr>"

definition toy_sample :: "nat \<Rightarrow> nat data" where
  "toy_sample V =
     \<lparr>pos = replicate V [0, 0, 0], edge_index = 0, precomp = 0, connection = 0, other = 0\<rparr>"

definition toy_output :: "nat \<Rightarrow> nat \<Rightarrow> mat" where
  "toy_output V n = replicate V (map (\<lambda>j. real j - ln (\<Sum>k\<leftarrow>[0..<n]. exp (real k))) [0..<n])"

definition toy_world :: "nat \<Rightarrow> (nat, nat, nat) world" where
  "toy_world n =
     \<lparr>net = Net_init n, parameters = 0, training = True, opt_state = 0,
      param_groups = [[''lr'' \<mapsto> 1 / 100]], target = [0..<n], num_nodes = n, history = []\<rparr>"

section \<open>Lemmas on the tensor operations\<close>

lemma dropout_shape:
  "length (dropout z t x) = length x \<and>
   list_all (\<lambda>row. length row = c) (dropout z t x) = list_all (\<lambda>row. length row = c) x"
  by (auto simp: dropout_def list_all_length nth_enumerate_eq split: prod.splits)

lemma Linear_rows:
  assumes "Linear l w x = Inr y"
  shows "length y = length x \<and> list_all (\<lambda>row. length row = out_features l) y"
  using assms by (auto simp: Linear_def list_all_iff split: if_splits)

lemma sum_list_exp_pos:
  fixes r :: "real list"
  assumes "r \<noteq> []"
  shows "0 < (\<Sum>u\<leftarrow>r. exp u)"
  using assms
proof (induction r)
  case Nil
  then show ?case by simp
next
  case (Cons a r)
  have "0 \<le> (\<Sum>u\<leftarrow>r. exp u)"
    by (rule sum_list_nonneg) auto
  moreover have "0 < exp a" by simp
  ultimately show ?case by (simp add: add_pos_nonneg)
qed

lemma log_softmax_row_normalised:
  fixes r :: "real list"
  assumes "r \<noteq> []"
  shows "(\<Sum>v\<leftarrow>map (\<lambda>v. v - ln (\<Sum>u\<leftarrow>r. exp u)) r. exp v) = 1"
proof -
  let ?S = "\<Sum>u\<leftarrow>r. exp u"
  have pos: "0 < ?S" using assms by (rule sum_list_exp_pos)
  have "(\<Sum>v\<leftarrow>map (\<lambda>v. v - ln ?S) r. exp v) = (\<Sum>v\<leftarrow>r. exp v * inverse ?S)"
    using pos by (simp add: comp_def exp_diff divide_inverse)
  also have "\<dots> = ?S * inverse ?S"
    by (simp add: sum_list_mult_const)
  also have "\<dots> = 1"
    using pos by simp
  finally show ?thesis .
qed

lemma log_softmax_rows:
  assumes "row \<in> set (log_softmax y)"
  shows "\<exists>r \<in> set y. length row = length r \<and> (r \<noteq> [] \<longrightarrow> (\<Sum>v\<leftarrow>row. exp v) = 1)"
proof -
  from assms obtain r where r: "r \<in> set y" "row = map (\<lambda>v. v - ln (\<Sum>u\<leftarrow>r. exp u)) r"
    by (auto simp: log_softmax_def)
  have "length row = length r" using r by simp
  moreover have "r \<noteq> [] \<longrightarrow> (\<Sum>v\<leftarrow>row. exp v) = 1"
    using r log_softmax_row_normalised [of r] by simp
  ultimately show ?thesis using r by blast
qed

lemma cat_dim2_channels:
  assumes "cat_dim2 x y = Inr c"
  shows "c = map2 (map2 (@)) x y \<and> length c = length x \<and> length y = length x \<and>
         (\<forall>v < length x. length (c ! v) = length (x ! v) \<and> length (y ! v) = length (x ! v) \<and>
            (\<forall>s < length (x ! v). length (c ! v ! s) = length (x ! v ! s) + length (y ! v ! s)))"
  using assms by (auto simp: cat_dim2_def list_all2_conv_all_nth split: if_splits)

section \<open>Lemmas on the forward pass\<close>

lemma and_then_InrE:
  assumes "and_then m f = (cs, Inr b)"
  obtains cs1 a cs2 where "m = (cs1, Inr a)" "f a = (cs2, Inr b)" "cs = cs1 @ cs2"
  using assms by (auto simp: and_then_def split: prod.splits sum.splits)

lemma and_then_cases:
  assumes "and_then m f = (cs, r)"
  obtains (raised) e where "m = (cs, Inl e)" "r = Inl e"
  | (returned) cs1 a cs2 where "m = (cs1, Inr a)" "f a = (cs2, r)" "cs = cs1 @ cs2"
  using assms by (auto simp: and_then_def split: prod.splits sum.splits)

lemma snd_and_then: "snd (and_then m f) = (case snd m of Inl e \<Rightarrow> Inl e | Inr a \<Rightarrow> snd (f a))"
  by (simp add: and_then_def split: prod.splits sum.splits)

lemmas call_defs = tensor_op_def call_scale0_transform_def call_block_def call_pool_def
  call_unpool_def call_magnitudes_def Let_def

lemma snd_calls:
  "snd (tensor_op r) = r"
  "snd (call_scale0_transform lib d) = scale0_transform lib d"
  "snd (call_block lib b spec p x (e, k, c)) = HarmonicResNetBlock lib b spec p x e k c"
  "snd (call_pool lib scale x d) = ParallelTransportPool lib scale x d"
  "snd (call_unpool lib scale x d) = ParallelTransportUnpool lib scale x d"
  "snd (call_magnitudes lib x) = magnitudes lib x"
  by (simp_all add: call_defs)

text \<open>A pass that returns has made all its calls, and each of them returned.\<close>

lemma forward_success:
  assumes "forward lib dn nt p tr z data = (cs, Inr out)"
  shows "\<exists>x0 d0 x11 xpre x1 data' dp x21 x22 x31 x32 xu xc x41 x42 m y3 y4 e0 k0 c0 e1 k1 c1.
     Linear (lin0 nt) (dn p Lin0) (pos data) = Inr x0 \<and>
     scale0_transform lib data = Inr d0 \<and>
     e0 = edge_index d0 \<and> k0 = precomp d0 \<and> c0 = connection d0 \<and>
     e1 = edge_index dp \<and> k1 = precomp dp \<and> c1 = connection dp \<and>
     HarmonicResNetBlock lib B11 (resnet_block11 nt) p
       (unsqueeze1 (stack_last (relu x0) (zeros_like (relu x0)))) e0 k0 c0 = Inr x11 \<and>
     HarmonicResNetBlock lib B12 (resnet_block12 nt) p x11 e0 k0 c0 = Inr xpre \<and>
     ParallelTransportPool lib (pool nt) xpre data = Inr (x1, data', dp) \<and>
     HarmonicResNetBlock lib B21 (resnet_block21 nt) p x1 e1 k1 c1 = Inr x21 \<and>
     HarmonicResNetBlock lib B22 (resnet_block22 nt) p x21 e1 k1 c1 = Inr x22 \<and>
     HarmonicResNetBlock lib B31 (resnet_block31 nt) p x22 e1 k1 c1 = Inr x31 \<and>
     HarmonicResNetBlock lib B32 (resnet_block32 nt) p x31 e1 k1 c1 = Inr x32 \<and>
     ParallelTransportUnpool lib (unpool nt) x32 data' = Inr xu \<and>
     cat_dim2 xu xpre = Inr xc \<and>
     HarmonicResNetBlock lib B41 (resnet_block41 nt) p xc e0 k0 c0 = Inr x41 \<and>
     HarmonicResNetBlock lib B42 (resnet_block42 nt) p x41 e0 k0 c0 = Inr x42 \<and>
     magnitudes lib x42 = Inr m \<and>
     Linear (lin3 nt) (dn p Lin3) (sum_dim1 m) = Inr y3 \<and>
     Linear (lin4 nt) (dn p Lin4) (dropout z tr (relu y3)) = Inr y4 \<and>
     out = log_softmax y4 \<and>
     cs = [Scale0_transform data (Inr d0),
           Block B11 (unsqueeze1 (stack_last (relu x0) (zeros_like (relu x0)))) (e0, k0, c0) (Inr x11),
           Block B12 x11 (e0, k0, c0) (Inr xpre),
           Pool xpre data (Inr (x1, data', dp)),
           Block B21 x1 (e1, k1, c1) (Inr x21),
           Block B22 x21 (e1, k1, c1) (Inr x22),
           Block B31 x22 (e1, k1, c1) (Inr x31),
           Block B32 x31 (e1, k1, c1) (Inr x32),
           Unpool x32 data' (Inr xu),
           Block B41 xc (e0, k0, c0) (Inr x41),
           Block B42 x41 (e0, k0, c0) (Inr x42),
           Magnitudes x42 (Inr m)]"
  apply (insert assms)
  apply (unfold forward_def Let_def)
  apply (erule and_then_InrE)
  apply (erule and_then_InrE)
  apply (erule and_then_InrE)
  apply (erule and_then_InrE)
  apply (erule and_then_InrE)
  apply (clarsimp simp: call_defs split: prod.splits)
  apply (erule and_then_InrE)
  apply (erule and_then_InrE)
  apply (erule and_then_InrE)
  apply (erule and_then_InrE)
  apply (erule and_then_InrE)
  apply (erule and_then_InrE)
  apply (erule and_then_InrE)
  apply (erule and_then_InrE)
  apply (erule and_then_InrE)
  apply (erule and_then_InrE)
  apply (erule and_then_InrE)
  apply (clarsimp simp: call_defs split: prod.splits)
  done

text \<open>
  Whatever the outcome of a pass: a call of a block of the first or of the last stack was
  given the attributes of the sample that the transform of scale 0 returned for the
  pass's argument, and the pooling and the unpooling are paired.
\<close>

lemma forward_calls:
  assumes "forward lib dn nt p tr z data = (cs, r)"
  shows "(\<forall>b x a res. Block b x a res \<in> set cs \<and> (b = B11 \<or> b = B12 \<or> b = B41 \<or> b = B42) \<longrightarrow>
            (\<exists>d0. scale0_transform lib data = Inr d0 \<and>
                  a = (edge_index d0, precomp d0, connection d0))) \<and>
         pooling_paired cs"
  apply (insert assms)
  apply (unfold forward_def Let_def)
  apply (erule and_then_cases, (auto simp: call_defs pooling_paired_def is_pool_def unpool_samples_def)[1])
  apply (erule and_then_cases, (auto simp: call_defs pooling_paired_def is_pool_def unpool_samples_def)[1])
  apply (erule and_then_cases, (auto simp: call_defs pooling_paired_def is_pool_def unpool_samples_def)[1])
  apply (erule and_then_cases, (auto simp: call_defs pooling_paired_def is_pool_def unpool_samples_def)[1])
  apply (erule and_then_cases, (auto simp: call_defs pooling_paired_def is_pool_def unpool_samples_def)[1])
  apply (clarsimp split: prod.splits)
  apply (erule and_then_cases, (auto simp: call_defs pooling_paired_def is_pool_def unpool_samples_def)[1])
  apply (erule and_then_cases, (auto simp: call_defs pooling_paired_def is_pool_def unpool_samples_def)[1])
  apply (erule and_then_cases, (auto simp: call_defs pooling_paired_def is_pool_def unpool_samples_def)[1])
  apply (erule and_then_cases, (auto simp: call_defs pooling_paired_def is_pool_def unpool_samples_def)[1])
  apply (erule and_then_cases, (auto simp: call_defs pooling_paired_def is_pool_def unpool_samples_def)[1])
  apply (erule and_then_cases, (auto simp: call_defs pooling_paired_def is_pool_def unpool_samples_def)[1])
  apply (erule and_then_cases, (auto simp: call_defs pooling_paired_def is_pool_def unpool_samples_def)[1])
  apply (erule and_then_cases, (auto simp: call_defs pooling_paired_def is_pool_def unpool_samples_def)[1])
  apply (erule and_then_cases, (auto simp: call_defs pooling_paired_def is_pool_def unpool_samples_def)[1])
  apply (erule and_then_cases, (auto simp: call_defs pooling_paired_def is_pool_def unpool_samples_def)[1])
  apply (erule and_then_cases, (auto simp: call_defs pooling_paired_def is_pool_def unpool_samples_def)[1])
  apply (auto simp: call_defs pooling_paired_def is_pool_def unpool_samples_def)
  done

text \<open>
  Whatever the outcome of a pass: what the first block after the unpooling was given is
  the concatenation of what the unpooling returned and what the second block returned,
  which the pooling was given.
\<close>

lemma forward_concatenation:
  assumes "forward lib dn nt p tr z data = (cs, r)"
  shows "(\<forall>xc a res. Block B41 xc a res \<in> set cs \<longrightarrow>
            (\<exists>x32 d xu x11 xp dd rp.
               Unpool x32 d (Inr xu) \<in> set cs \<and> Block B12 x11 a (Inr xp) \<in> set cs \<and>
               Pool xp dd rp \<in> set cs \<and> cat_dim2 xu xp = Inr xc)) \<and>
         (\<forall>out. r = Inr out \<longrightarrow> (\<exists>xc a res. Block B41 xc a res \<in> set cs))"
  apply (insert assms)
  apply (unfold forward_def Let_def)
  apply (erule and_then_cases, (auto simp: call_defs)[1])
  apply (erule and_then_cases, (auto simp: call_defs)[1])
  apply (erule and_then_cases, (auto simp: call_defs)[1])
  apply (erule and_then_cases, (auto simp: call_defs)[1])
  apply (erule and_then_cases, (auto simp: call_defs)[1])
  apply (clarsimp split: prod.splits)
  apply (erule and_then_cases, (auto simp: call_defs)[1])
  apply (erule and_then_cases, (auto simp: call_defs)[1])
  apply (erule and_then_cases, (auto simp: call_defs)[1])
  apply (erule and_then_cases, (auto simp: call_defs)[1])
  apply (erule and_then_cases, (auto simp: call_defs)[1])
  apply (erule and_then_cases, (auto simp: call_defs)[1])
  apply (erule and_then_cases, (auto simp: call_defs)[1])
  apply (erule and_then_cases, (auto simp: call_defs)[1])
  apply (erule and_then_cases, (auto simp: call_defs)[1])
  apply (erule and_then_cases, (auto simp: call_defs)[1])
  apply (erule and_then_cases, (auto simp: call_defs)[1])
  apply (auto simp: call_defs)
  done

section \<open>Lemmas on the training\<close>

lemma same_configuration_refl: "same_configuration s s"
  by (simp add: same_configuration_def)

lemma same_configuration_trans:
  "same_configuration s s' \<Longrightarrow> same_configuration s' s'' \<Longrightarrow> same_configuration s s''"
  by (simp add: same_configuration_def)

lemma train_batch_configuration: "same_configuration s (snd (train_batch lib rt d s))"
  by (simp add: train_batch_def record_event_def Let_def same_configuration_def
      split: prod.splits sum.splits)

lemma train_batches_configuration: "same_configuration s (snd (train_batches lib rt ds s))"
proof (induction ds arbitrary: s)
  case Nil
  show ?case by (simp add: same_configuration_refl)
next
  case (Cons d ds)
  have a: "same_configuration s (snd (train_batch lib rt d s))"
    by (rule train_batch_configuration)
  show ?case
  proof (cases "train_batch lib rt d s")
    case (Pair r s')
    with a Cons.IH [of s'] show ?thesis
      by (cases r) (auto intro: same_configuration_trans)
  qed
qed

lemma losses_on_target_append:
  assumes "losses_on_target tg h" and "losses_on_target tg new"
  shows "losses_on_target tg (h @ new)"
  unfolding losses_on_target_def
proof (intro allI impI)
  fix i y t l
  assume i: "i < length (h @ new)" and ev: "(h @ new) ! i = Nll_loss y t l"
  show "t = tg \<and> l = nll_loss y tg \<and> 0 < i \<and> (\<exists>d cs. (h @ new) ! (i - 1) = Forward_pass d cs (Inr y))"
  proof (cases "i < length h")
    case True
    with ev have "h ! i = Nll_loss y t l" by (simp add: nth_append)
    with assms(1) True have "t = tg \<and> l = nll_loss y tg \<and> 0 < i \<and> (\<exists>d cs. h ! (i - 1) = Forward_pass d cs (Inr y))"
      unfolding losses_on_target_def by blast
    moreover have "i - 1 < length h" using True by simp
    then have "(h @ new) ! (i - 1) = h ! (i - 1)" by (simp add: nth_append)
    ultimately show ?thesis by simp
  next
    case False
    let ?j = "i - length h"
    from False i have j: "?j < length new" by simp
    from False ev have "new ! ?j = Nll_loss y t l" by (simp add: nth_append)
    with assms(2) j have *: "t = tg \<and> l = nll_loss y tg \<and> 0 < ?j \<and> (\<exists>d cs. new ! (?j - 1) = Forward_pass d cs (Inr y))"
      unfolding losses_on_target_def by blast
    then have "(h @ new) ! (i - 1) = new ! (?j - 1)"
      using False by (auto simp: nth_append)
    with * show ?thesis by auto
  qed
qed

lemma epochs_printed_append: "epochs_printed (a @ b) = epochs_printed a @ epochs_printed b"
  by (simp add: epochs_printed_def)

lemma batch_events_ok_append:
  "batch_events_ok lib rt s a \<Longrightarrow> batch_events_ok lib rt s b \<Longrightarrow> batch_events_ok lib rt s (a @ b)"
  by (auto simp: batch_events_ok_def losses_on_target_append epochs_printed_append)

lemma batch_events_ok_cong:
  "same_configuration s s' \<Longrightarrow> batch_events_ok lib rt s' new = batch_events_ok lib rt s new"
  by (simp add: batch_events_ok_def same_configuration_def)

lemma train_batch_history:
  "\<exists>new. history (snd (train_batch lib rt d s)) = history s @ new \<and>
     batch_events_ok lib rt s new \<and>
     (fst (train_batch lib rt d s) = None \<longrightarrow> map call_name new = batch_calls)"
  apply (simp add: train_batch_def record_event_def Let_def batch_calls_def losses_on_target_def
      batch_events_ok_def epochs_printed_def split: prod.splits sum.splits)
  apply (auto simp: nth_Cons less_Suc_eq split: nat.splits)
  done

lemma train_batches_history:
  "\<exists>new. history (snd (train_batches lib rt ds s)) = history s @ new \<and>
     batch_events_ok lib rt s new \<and>
     (fst (train_batches lib rt ds s) = None \<longrightarrow>
        map call_name new = concat (replicate (length ds) batch_calls))"
proof (induction ds arbitrary: s)
  case Nil
  show ?case
    by (simp add: batch_events_ok_def losses_on_target_def epochs_printed_def)
next
  case (Cons d ds)
  obtain r s1 where b: "train_batch lib rt d s = (r, s1)"
    by (cases "train_batch lib rt d s")
  have "\<exists>new. history (snd (train_batch lib rt d s)) = history s @ new \<and>
     batch_events_ok lib rt s new \<and>
     (fst (train_batch lib rt d s) = None \<longrightarrow> map call_name new = batch_calls)"
    by (rule train_batch_history)
  then obtain new1 where "history (snd (train_batch lib rt d s)) = history s @ new1 \<and>
     batch_events_ok lib rt s new1 \<and>
     (fst (train_batch lib rt d s) = None \<longrightarrow> map call_name new1 = batch_calls)" ..
  then have n1: "history s1 = history s @ new1" "batch_events_ok lib rt s new1"
    "r = None \<longrightarrow> map call_name new1 = batch_calls"
    by (simp_all add: b)
  have c: "same_configuration s s1"
    using train_batch_configuration [of s lib rt d] by (simp add: b)
  show ?case
  proof (cases r)
    case (Some e)
    have t: "train_batches lib rt (d # ds) s = (Some e, s1)"
      by (simp add: b Some)
    show ?thesis
      unfolding t using n1(1,2) by (intro exI [of _ new1]) simp
  next
    case None
    have "\<exists>new. history (snd (train_batches lib rt ds s1)) = history s1 @ new \<and>
       batch_events_ok lib rt s1 new \<and>
       (fst (train_batches lib rt ds s1) = None \<longrightarrow>
          map call_name new = concat (replicate (length ds) batch_calls))"
      by (rule Cons.IH)
    then obtain new2 where n2: "history (snd (train_batches lib rt ds s1)) = history s1 @ new2 \<and>
       batch_events_ok lib rt s1 new2 \<and>
       (fst (train_batches lib rt ds s1) = None \<longrightarrow>
          map call_name new2 = concat (replicate (length ds) batch_calls))" ..
    have t: "train_batches lib rt (d # ds) s = train_batches lib rt ds s1"
      by (simp add: b None)
    have "batch_events_ok lib rt s new2"
      using n2 batch_events_ok_cong [OF c, of lib rt new2] by simp
    then have "batch_events_ok lib rt s (new1 @ new2)"
      using n1(2) by (rule batch_events_ok_append [rotated])
    moreover have "history (snd (train_batches lib rt (d # ds) s)) = history s @ new1 @ new2"
      unfolding t using n1(1) n2 by simp
    moreover have "fst (train_batches lib rt (d # ds) s) = None \<longrightarrow>
        map call_name (new1 @ new2) = concat (replicate (length (d # ds)) batch_calls)"
      unfolding t using None n1(3) n2 by simp
    ultimately show ?thesis
      by (intro exI [of _ "new1 @ new2"] conjI)
  qed
qed

text \<open>What a call of \<^verbatim>\<open>train\<close> changes, and what it adds to the history.\<close>

lemma train_unfold:
  obtains s2 where
    "train lib rt ds epoch s = train_batches lib rt (train_loader rt ds (length (history s2))) s2"
    "history s2 = history s @ [Model_train]"
    "net s2 = net s" "target s2 = target s" "num_nodes s2 = num_nodes s" "training s2 = True"
    "param_groups s2 =
       (if epoch = 60 then map (\<lambda>param_group. param_group(''lr'' \<mapsto> 1 / 1000)) (param_groups s)
        else param_groups s)"
proof -
  define s1 where "s1 = record_event Model_train (s\<lparr>training := True\<rparr>)"
  define s2 where "s2 = (if epoch = 60
      then s1\<lparr>param_groups := map (\<lambda>param_group. param_group(''lr'' \<mapsto> 1 / 1000)) (param_groups s1)\<rparr>
      else s1)"
  have "train lib rt ds epoch s = train_batches lib rt (train_loader rt ds (length (history s2))) s2"
    by (simp add: train_def Let_def s1_def s2_def)
  moreover have "history s2 = history s @ [Model_train]"
    by (simp add: s1_def s2_def record_event_def)
  moreover have "net s2 = net s" "target s2 = target s" "num_nodes s2 = num_nodes s" "training s2 = True"
    by (simp_all add: s1_def s2_def record_event_def)
  moreover have "param_groups s2 =
       (if epoch = 60 then map (\<lambda>param_group. param_group(''lr'' \<mapsto> 1 / 1000)) (param_groups s)
        else param_groups s)"
    by (simp add: s1_def s2_def record_event_def)
  ultimately show ?thesis by (rule that)
qed

lemma train_fields:
  "net (snd (train lib rt ds epoch s)) = net s \<and>
   target (snd (train lib rt ds epoch s)) = target s \<and>
   num_nodes (snd (train lib rt ds epoch s)) = num_nodes s \<and>
   training (snd (train lib rt ds epoch s)) = True \<and>
   param_groups (snd (train lib rt ds epoch s)) =
     (if epoch = 60 then map (\<lambda>param_group. param_group(''lr'' \<mapsto> 1 / 1000)) (param_groups s)
      else param_groups s)"
proof -
  obtain s2 where s2:
    "train lib rt ds epoch s = train_batches lib rt (train_loader rt ds (length (history s2))) s2"
    "net s2 = net s" "target s2 = target s" "num_nodes s2 = num_nodes s" "training s2 = True"
    "param_groups s2 =
       (if epoch = 60 then map (\<lambda>param_group. param_group(''lr'' \<mapsto> 1 / 1000)) (param_groups s)
        else param_groups s)"
    by (rule train_unfold)
  have "same_configuration s2 (snd (train lib rt ds epoch s))"
    unfolding s2(1) by (rule train_batches_configuration)
  with s2(2-6) show ?thesis
    by (simp add: same_configuration_def)
qed

lemma train_history:
  "\<exists>new. history (snd (train lib rt ds epoch s)) = history s @ Model_train # new \<and>
     batch_events_ok lib rt (snd (train lib rt ds epoch s)) new \<and>
     (fst (train lib rt ds epoch s) = None \<longrightarrow>
        map call_name new =
          concat (replicate (length (train_loader rt ds (Suc (length (history s))))) batch_calls))"
proof -
  obtain s2 where s2:
    "train lib rt ds epoch s = train_batches lib rt (train_loader rt ds (length (history s2))) s2"
    "history s2 = history s @ [Model_train]"
    by (rule train_unfold)
  define l where "l = train_loader rt ds (length (history s2))"
  have t: "train lib rt ds epoch s = train_batches lib rt l s2"
    using s2(1) by (simp add: l_def)
  have len: "length l = length (train_loader rt ds (Suc (length (history s))))"
    using s2(2) by (simp add: l_def)
  have "\<exists>new. history (snd (train_batches lib rt l s2)) = history s2 @ new \<and>
     batch_events_ok lib rt s2 new \<and>
     (fst (train_batches lib rt l s2) = None \<longrightarrow>
        map call_name new = concat (replicate (length l) batch_calls))"
    by (rule train_batches_history)
  then obtain new where n0: "history (snd (train_batches lib rt l s2)) = history s2 @ new \<and>
     batch_events_ok lib rt s2 new \<and>
     (fst (train_batches lib rt l s2) = None \<longrightarrow>
        map call_name new = concat (replicate (length l) batch_calls))" ..
  note n = conjunct1 [OF n0] conjunct1 [OF conjunct2 [OF n0]] conjunct2 [OF conjunct2 [OF n0]]
  have c: "same_configuration s2 (snd (train_batches lib rt l s2))"
    by (rule train_batches_configuration)
  have "batch_events_ok lib rt (snd (train lib rt ds epoch s)) new"
    unfolding t using n(2) batch_events_ok_cong [OF c, of lib rt new] by simp
  moreover have "history (snd (train lib rt ds epoch s)) = history s @ Model_train # new"
    unfolding t using n(1) s2(2) by simp
  moreover have "fst (train lib rt ds epoch s) = None \<longrightarrow>
        map call_name new =
          concat (replicate (length (train_loader rt ds (Suc (length (history s))))) batch_calls)"
    unfolding t using n(3) len by simp
  ultimately show ?thesis by (intro exI [of _ new] conjI)
qed

text \<open>The loop over the epochs.\<close>

lemma epoch_loop_fields:
  "net (snd (epoch_loop lib rt ds es s)) = net s \<and>
   target (snd (epoch_loop lib rt ds es s)) = target s \<and>
   num_nodes (snd (epoch_loop lib rt ds es s)) = num_nodes s"
proof (induction es arbitrary: s)
  case Nil
  show ?case by simp
next
  case (Cons e es)
  define s0 where "s0 = record_event (Print_epoch e) s"
  have s0: "net s0 = net s" "target s0 = target s" "num_nodes s0 = num_nodes s"
    "param_groups s0 = param_groups s" "history s0 = history s @ [Print_epoch e]"
    by (simp_all add: s0_def record_event_def)
  obtain r s1 where t: "train lib rt ds e s0 = (r, s1)"
    by (cases "train lib rt ds e s0")
  have f: "net s1 = net s \<and> target s1 = target s \<and> num_nodes s1 = num_nodes s"
    using train_fields [of lib rt ds e s0] by (simp add: t s0)
  show ?case
  proof (cases r)
    case (Some err)
    then show ?thesis using f t by (simp add: s0_def [symmetric])
  next
    case None
    then show ?thesis using f t Cons.IH [of s1] by (simp add: s0_def [symmetric])
  qed
qed

lemma epoch_loop_param_groups:
  assumes "fst (epoch_loop lib rt ds es s) = None"
  shows "param_groups (snd (epoch_loop lib rt ds es s)) =
     (if 60 \<in> set es then map (\<lambda>param_group. param_group(''lr'' \<mapsto> 1 / 1000)) (param_groups s)
      else param_groups s)"
  using assms
proof (induction es arbitrary: s)
  case Nil
  show ?case by simp
next
  case (Cons e es)
  define s0 where "s0 = record_event (Print_epoch e) s"
  have s0: "net s0 = net s" "target s0 = target s" "num_nodes s0 = num_nodes s"
    "param_groups s0 = param_groups s" "history s0 = history s @ [Print_epoch e]"
    by (simp_all add: s0_def record_event_def)
  obtain r s1 where t: "train lib rt ds e s0 = (r, s1)"
    by (cases "train lib rt ds e s0")
  have g: "param_groups s1 =
     (if e = 60 then map (\<lambda>param_group. param_group(''lr'' \<mapsto> 1 / 1000)) (param_groups s)
      else param_groups s)"
    using train_fields [of lib rt ds e s0] by (simp add: t s0)
  have r: "r = None"
    using Cons.prems t by (cases r) (simp_all add: s0_def [symmetric])
  have u: "epoch_loop lib rt ds (e # es) s = epoch_loop lib rt ds es s1"
    using t r by (simp add: s0_def [symmetric])
  have "fst (epoch_loop lib rt ds es s1) = None"
    using Cons.prems unfolding u .
  then have "param_groups (snd (epoch_loop lib rt ds es s1)) =
     (if 60 \<in> set es then map (\<lambda>param_group. param_group(''lr'' \<mapsto> 1 / 1000)) (param_groups s1)
      else param_groups s1)"
    by (rule Cons.IH)
  then show ?case
    unfolding u using g by (auto simp: fun_eq_iff)
qed

lemma epoch_loop_history:
  "\<exists>new. history (snd (epoch_loop lib rt ds es s)) = history s @ new \<and>
     losses_on_target (target s) new \<and>
     (\<forall>d cs r. Forward_pass d cs r \<in> set new \<longrightarrow>
        (\<exists>p tr z. forward lib (dense rt) (net s) p tr z d = (cs, r))) \<and>
     (fst (epoch_loop lib rt ds es s) = None \<longrightarrow>
        epochs_printed new = es \<and>
        ((\<forall>time. length (shuffle rt time ds) = length ds) \<longrightarrow>
           map call_name new = concat (map (\<lambda>e. epoch_calls (length ds)) es)))"
proof (induction es arbitrary: s)
  case Nil
  show ?case
    by (simp add: losses_on_target_def epochs_printed_def)
next
  case (Cons e es)
  define s0 where "s0 = record_event (Print_epoch e) s"
  have s0: "net s0 = net s" "target s0 = target s" "num_nodes s0 = num_nodes s"
    "param_groups s0 = param_groups s" "history s0 = history s @ [Print_epoch e]"
    by (simp_all add: s0_def record_event_def)
  obtain r s1 where t: "train lib rt ds e s0 = (r, s1)"
    by (cases "train lib rt ds e s0")
  have f: "net s1 = net s" "target s1 = target s"
    using train_fields [of lib rt ds e s0] by (simp_all add: t s0)
  have "\<exists>new. history (snd (train lib rt ds e s0)) = history s0 @ Model_train # new \<and>
     batch_events_ok lib rt (snd (train lib rt ds e s0)) new \<and>
     (fst (train lib rt ds e s0) = None \<longrightarrow>
        map call_name new =
          concat (replicate (length (train_loader rt ds (Suc (length (history s0))))) batch_calls))"
    by (rule train_history)
  then obtain new1 where "history (snd (train lib rt ds e s0)) = history s0 @ Model_train # new1 \<and>
     batch_events_ok lib rt (snd (train lib rt ds e s0)) new1 \<and>
     (fst (train lib rt ds e s0) = None \<longrightarrow>
        map call_name new1 =
          concat (replicate (length (train_loader rt ds (Suc (length (history s0))))) batch_calls))" ..
  then have n1: "history s1 = history s @ Print_epoch e # Model_train # new1"
    "batch_events_ok lib rt s1 new1"
    "r = None \<longrightarrow> map call_name new1 =
          concat (replicate (length (train_loader rt ds (Suc (length (history s0))))) batch_calls)"
    by (simp_all add: t s0)
  define ev where "ev = Print_epoch e # Model_train # new1"
  have "losses_on_target (target s) [Print_epoch e, Model_train]"
    by (simp add: losses_on_target_def nth_Cons split: nat.splits)
  moreover have "losses_on_target (target s) new1"
    using n1(2) f by (simp add: batch_events_ok_def)
  ultimately have "losses_on_target (target s) ([Print_epoch e, Model_train] @ new1)"
    by (rule losses_on_target_append)
  then have l1: "losses_on_target (target s) ev"
    by (simp add: ev_def)
  have p1: "\<forall>d cs r. Forward_pass d cs r \<in> set ev \<longrightarrow>
        (\<exists>p tr z. forward lib (dense rt) (net s) p tr z d = (cs, r))"
    using n1(2) f by (simp add: batch_events_ok_def ev_def)
  have e1: "epochs_printed ev = [e]"
    using n1(2) by (simp add: batch_events_ok_def ev_def epochs_printed_def)
  have c1: "r = None \<longrightarrow> (\<forall>time. length (shuffle rt time ds) = length ds) \<longrightarrow>
      map call_name ev = epoch_calls (length ds)"
    using n1(3) by (simp add: ev_def epoch_calls_def train_loader_def)
  have h1: "history s1 = history s @ ev"
    using n1(1) by (simp add: ev_def)
  show ?case
  proof (cases r)
    case (Some err)
    have u: "epoch_loop lib rt ds (e # es) s = (Some err, s1)"
      using t Some by (simp add: s0_def [symmetric])
    show ?thesis
      unfolding u using h1 l1 p1 by (intro exI [of _ ev]) simp
  next
    case None
    have u: "epoch_loop lib rt ds (e # es) s = epoch_loop lib rt ds es s1"
      using t None by (simp add: s0_def [symmetric])
    have "\<exists>new. history (snd (epoch_loop lib rt ds es s1)) = history s1 @ new \<and>
       losses_on_target (target s1) new \<and>
       (\<forall>d cs r. Forward_pass d cs r \<in> set new \<longrightarrow>
          (\<exists>p tr z. forward lib (dense rt) (net s1) p tr z d = (cs, r))) \<and>
       (fst (epoch_loop lib rt ds es s1) = None \<longrightarrow>
          epochs_printed new = es \<and>
          ((\<forall>time. length (shuffle rt time ds) = length ds) \<longrightarrow>
             map call_name new = concat (map (\<lambda>e. epoch_calls (length ds)) es)))"
      by (rule Cons.IH)
    then obtain new2 where n2: "history (snd (epoch_loop lib rt ds es s1)) = history s1 @ new2 \<and>
       losses_on_target (target s1) new2 \<and>
       (\<forall>d cs r. Forward_pass d cs r \<in> set new2 \<longrightarrow>
          (\<exists>p tr z. forward lib (dense rt) (net s1) p tr z d = (cs, r))) \<and>
       (fst (epoch_loop lib rt ds es s1) = None \<longrightarrow>
          epochs_printed new2 = es \<and>
          ((\<forall>time. length (shuffle rt time ds) = length ds) \<longrightarrow>
             map call_name new2 = concat (map (\<lambda>e. epoch_calls (length ds)) es)))" ..
    have "losses_on_target (target s) new2"
      using n2 f by simp
    with l1 have "losses_on_target (target s) (ev @ new2)"
      by (rule losses_on_target_append)
    moreover have "history (snd (epoch_loop lib rt ds (e # es) s)) = history s @ ev @ new2"
      unfolding u using n2 h1 by simp
    moreover have "\<forall>d cs r. Forward_pass d cs r \<in> set (ev @ new2) \<longrightarrow>
        (\<exists>p tr z. forward lib (dense rt) (net s) p tr z d = (cs, r))"
      using p1 n2 f by auto
    moreover have "fst (epoch_loop lib rt ds (e # es) s) = None \<longrightarrow>
        epochs_printed (ev @ new2) = e # es \<and>
        ((\<forall>time. length (shuffle rt time ds) = length ds) \<longrightarrow>
           map call_name (ev @ new2) = concat (map (\<lambda>e. epoch_calls (length ds)) (e # es)))"
      unfolding u using n2 e1 c1 None by (simp add: epochs_printed_append)
    ultimately show ?thesis
      by (intro exI [of _ "ev @ new2"] conjI)
  qed
qed






section \<open>Lemmas on the test\<close>

lemma forward_eval_draw: "forward lib dn nt p False z d = forward lib dn nt p False z' d"
  by (simp add: forward_def dropout_def)

lemma sample_matches_cong:
  assumes "net s' = net s" "parameters s' = parameters s" "target s' = target s"
  shows "sample_matches lib rt s' d = sample_matches lib rt s d"
  using assms by (simp add: sample_matches_def predict_def split: sum.splits)

lemma test_loop_value:
  assumes "training s = False"
  shows "fst (test_loop lib rt ds s c) = Inr k \<longleftrightarrow>
     (\<forall>d \<in> set ds. \<exists>m. sample_matches lib rt s d = Inr m) \<and>
     k = c + (\<Sum>d\<leftarrow>ds. case sample_matches lib rt s d of Inl e \<Rightarrow> 0 | Inr m \<Rightarrow> m)"
  using assms
proof (induction ds arbitrary: s c)
  case Nil
  show ?case by auto
next
  case (Cons d ds)
  define s1 where "s1 = record_event (To_device d) s"
  define z where "z = dropout_draw rt (length (history s1))"
  define fw where "fw = forward lib (dense rt) (net s) (parameters s) False z (to_device d)"
  define s2 where "s2 = record_event (Forward_pass (to_device d) (fst fw) (snd fw)) s1"
  have s1: "net s1 = net s" "parameters s1 = parameters s" "training s1 = False"
    using Cons.prems by (simp_all add: s1_def record_event_def)
  have s2: "net s2 = net s" "parameters s2 = parameters s" "target s2 = target s" "training s2 = False"
    using Cons.prems by (simp_all add: s2_def s1_def record_event_def)
  have fw: "forward lib (dense rt) (net s1) (parameters s1) (training s1) z (to_device d) = (fst fw, snd fw)"
    by (simp add: fw_def s1)
  have m: "sample_matches lib rt s d =
      (case snd fw of Inl e \<Rightarrow> Inl e
       | Inr y \<Rightarrow> (case max_dim1_indices (out_features (lin4 (net s))) y of Inl e \<Rightarrow> Inl e
                  | Inr pred \<Rightarrow> eq_sum pred (target s)))"
    using forward_eval_draw [of lib "dense rt" "net s" "parameters s" z "to_device d" "\<lambda>i j. False"]
    by (simp add: sample_matches_def predict_def fw_def split: sum.splits)
  have "test_loop lib rt (d # ds) s c =
      (case snd fw of Inl e \<Rightarrow> (Inl e, s2)
       | Inr y \<Rightarrow>
           (case max_dim1_indices (out_features (lin4 (net s2))) y of Inl e \<Rightarrow> (Inl e, s2)
            | Inr pred \<Rightarrow>
                (case eq_sum pred (target s2) of Inl e \<Rightarrow> (Inl e, s2)
                 | Inr c' \<Rightarrow> test_loop lib rt ds s2 (c + c'))))"
    apply (subst test_loop.simps)
    apply (unfold Let_def)
    apply (fold s1_def)
    apply (fold z_def)
    apply (simp only: fw prod.case)
    apply (fold s2_def)
    apply (rule refl)
    done
  then have step: "test_loop lib rt (d # ds) s c =
      (case sample_matches lib rt s d of Inl e \<Rightarrow> (Inl e, s2) | Inr m \<Rightarrow> test_loop lib rt ds s2 (c + m))"
    by (simp add: m s2 split: sum.splits)
  have ih: "\<And>c'. fst (test_loop lib rt ds s2 c') = Inr k \<longleftrightarrow>
     (\<forall>d \<in> set ds. \<exists>m. sample_matches lib rt s d = Inr m) \<and>
     k = c' + (\<Sum>d\<leftarrow>ds. case sample_matches lib rt s d of Inl e \<Rightarrow> 0 | Inr m \<Rightarrow> m)"
    using Cons.IH [OF s2(4)] sample_matches_cong [OF s2(1,2,3)] by simp
  show ?case
    unfolding step by (cases "sample_matches lib rt s d") (simp_all add: ih add.assoc)
qed

lemma test_loop_fields:
  "net (snd (test_loop lib rt ds s c)) = net s \<and>
   parameters (snd (test_loop lib rt ds s c)) = parameters s \<and>
   num_nodes (snd (test_loop lib rt ds s c)) = num_nodes s \<and>
   target (snd (test_loop lib rt ds s c)) = target s"
proof (induction ds arbitrary: s c)
  case Nil
  show ?case by simp
next
  case (Cons d ds)
  show ?case
    by (simp add: Let_def Cons.IH record_event_def split: prod.splits sum.splits)
qed

text \<open>The value of \<^verbatim>\<open>test\<close>, by the counts of the samples.\<close>

lemma test_value:
  "fst (test lib rt ds s) = Inr r \<longleftrightarrow>
     (\<forall>d \<in> set ds. \<exists>m. sample_matches lib rt s d = Inr m) \<and> length ds * num_nodes s \<noteq> 0 \<and>
     r = real (\<Sum>d\<leftarrow>ds. case sample_matches lib rt s d of Inl e \<Rightarrow> 0 | Inr m \<Rightarrow> m) /
         real (length ds * num_nodes s)"
proof -
  define s1 where "s1 = record_event Model_eval (s\<lparr>training := False\<rparr>)"
  have s1: "net s1 = net s" "parameters s1 = parameters s" "target s1 = target s"
    "training s1 = False" "num_nodes s1 = num_nodes s"
    by (simp_all add: s1_def record_event_def)
  obtain res s2 where l: "test_loop lib rt ds s1 0 = (res, s2)"
    by (cases "test_loop lib rt ds s1 0")
  have n: "num_nodes s2 = num_nodes s"
    using test_loop_fields [of lib rt ds s1 0] by (simp add: l s1)
  have v: "\<And>k. res = Inr k \<longleftrightarrow>
     (\<forall>d \<in> set ds. \<exists>m. sample_matches lib rt s d = Inr m) \<and>
     k = (\<Sum>d\<leftarrow>ds. case sample_matches lib rt s d of Inl e \<Rightarrow> 0 | Inr m \<Rightarrow> m)"
    using test_loop_value [OF s1(4), of lib rt ds 0] sample_matches_cong [OF s1(1,2,3), of lib rt]
    by (simp add: l)
  have t: "test lib rt ds s =
     (case res of Inl e \<Rightarrow> (Inl e, s2)
      | Inr correct \<Rightarrow> if length ds * num_nodes s = 0 then (Inl ZeroDivisionError, s2)
          else (Inr (real correct / real (length ds * num_nodes s)), s2))"
    by (simp add: test_def Let_def s1_def [symmetric] test_loader_def l n split: sum.splits)
  show ?thesis
  proof (cases res)
    case (Inl e)
    with v t show ?thesis by auto
  next
    case (Inr k)
    with v [of k] t show ?thesis by auto
  qed
qed

lemma eq_sum_identity:
  assumes "length pred = n"
  shows "eq_sum pred [0..<n] = Inr (length (filter (\<lambda>i. pred ! i = i) [0..<length pred]))"
proof -
  have "zip pred [0..<n] = map (\<lambda>i. (pred ! i, i)) [0..<n]"
    using assms by (intro nth_equalityI) simp_all
  then have "filter (\<lambda>(p, t). p = t) (zip pred [0..<n]) =
      map (\<lambda>i. (pred ! i, i)) (filter (\<lambda>i. pred ! i = i) [0..<n])"
    by (simp add: filter_map comp_def)
  then show ?thesis
    using assms by (simp add: eq_sum_def)
qed

lemma eq_sum_bound:
  assumes "eq_sum pred tgt = Inr m" and "length pred = length tgt"
  shows "m \<le> length tgt"
proof -
  have "m = length (filter (\<lambda>(p, t). p = t) (zip pred tgt))"
    using assms by (simp add: eq_sum_def)
  also have "\<dots> \<le> length (zip pred tgt)"
    by (rule length_filter_le)
  finally show ?thesis using assms(2) by simp
qed

lemma eq_sum_lengths:
  assumes "eq_sum pred tgt = Inr m"
  shows "length pred = length tgt \<or> length pred = 1 \<or> length tgt = 1"
  using assms by (auto simp: eq_sum_def split: if_splits)

lemma max_dim1_indices_length: "max_dim1_indices c y = Inr pred \<Longrightarrow> length pred = length y"
  by (auto simp: max_dim1_indices_def split: if_splits)

lemma test_loop_history:
  "\<exists>new. history (snd (test_loop lib rt ds s c)) = history s @ new \<and>
     (\<forall>d cs r. Forward_pass d cs r \<in> set new \<longrightarrow>
        (\<exists>p tr z. forward lib (dense rt) (net s) p tr z d = (cs, r)))"
proof (induction ds arbitrary: s c)
  case Nil
  show ?case by simp
next
  case (Cons d ds)
  define s1 where "s1 = record_event (To_device d) s"
  define z where "z = dropout_draw rt (length (history s1))"
  define fw where "fw = forward lib (dense rt) (net s1) (parameters s1) (training s1) z (to_device d)"
  define s2 where "s2 = record_event (Forward_pass (to_device d) (fst fw) (snd fw)) s1"
  define ev where "ev = [To_device d, Forward_pass (to_device d) (fst fw) (snd fw)]"
  have s2: "net s2 = net s" "history s2 = history s @ ev"
    by (simp_all add: s2_def s1_def record_event_def ev_def)
  have fw: "forward lib (dense rt) (net s1) (parameters s1) (training s1) z (to_device d) = (fst fw, snd fw)"
    by (simp add: fw_def)
  have p: "\<forall>dd cs r. Forward_pass dd cs r \<in> set ev \<longrightarrow>
        (\<exists>p tr z. forward lib (dense rt) (net s) p tr z dd = (cs, r))"
    using fw by (auto simp: ev_def s1_def record_event_def)
  have step: "test_loop lib rt (d # ds) s c =
      (case snd fw of Inl e \<Rightarrow> (Inl e, s2)
       | Inr y \<Rightarrow>
           (case max_dim1_indices (out_features (lin4 (net s2))) y of Inl e \<Rightarrow> (Inl e, s2)
            | Inr pred \<Rightarrow>
                (case eq_sum pred (target s2) of Inl e \<Rightarrow> (Inl e, s2)
                 | Inr c' \<Rightarrow> test_loop lib rt ds s2 (c + c'))))"
    apply (subst test_loop.simps)
    apply (unfold Let_def)
    apply (fold s1_def)
    apply (fold z_def)
    apply (simp only: fw prod.case)
    apply (fold s2_def)
    apply (rule refl)
    done
  have stop: "\<exists>new. history s2 = history s @ new \<and>
     (\<forall>d cs r. Forward_pass d cs r \<in> set new \<longrightarrow>
        (\<exists>p tr z. forward lib (dense rt) (net s) p tr z d = (cs, r)))"
    using s2(2) p by (intro exI [of _ ev]) simp
  have go: "\<exists>new. history (snd (test_loop lib rt ds s2 c')) = history s @ new \<and>
     (\<forall>d cs r. Forward_pass d cs r \<in> set new \<longrightarrow>
        (\<exists>p tr z. forward lib (dense rt) (net s) p tr z d = (cs, r)))" for c'
  proof -
    have "\<exists>new. history (snd (test_loop lib rt ds s2 c')) = history s2 @ new \<and>
     (\<forall>d cs r. Forward_pass d cs r \<in> set new \<longrightarrow>
        (\<exists>p tr z. forward lib (dense rt) (net s2) p tr z d = (cs, r)))"
      by (rule Cons.IH)
    then obtain new where n: "history (snd (test_loop lib rt ds s2 c')) = history s2 @ new \<and>
     (\<forall>d cs r. Forward_pass d cs r \<in> set new \<longrightarrow>
        (\<exists>p tr z. forward lib (dense rt) (net s2) p tr z d = (cs, r)))" ..
    show ?thesis
      using n p s2 by (intro exI [of _ "ev @ new"]) auto
  qed
  show ?case
    unfolding step using stop go by (simp split: sum.splits)
qed

lemma test_history:
  "\<exists>new. history (snd (test lib rt ds s)) = history s @ new \<and>
     (\<forall>d cs r. Forward_pass d cs r \<in> set new \<longrightarrow>
        (\<exists>p tr z. forward lib (dense rt) (net s) p tr z d = (cs, r)))"
proof -
  define s1 where "s1 = record_event Model_eval (s\<lparr>training := False\<rparr>)"
  have s1: "net s1 = net s" "history s1 = history s @ [Model_eval]"
    by (simp_all add: s1_def record_event_def)
  have "\<exists>new. history (snd (test_loop lib rt ds s1 0)) = history s1 @ new \<and>
     (\<forall>d cs r. Forward_pass d cs r \<in> set new \<longrightarrow>
        (\<exists>p tr z. forward lib (dense rt) (net s1) p tr z d = (cs, r)))"
    by (rule test_loop_history)
  then obtain new where n: "history (snd (test_loop lib rt ds s1 0)) = history s1 @ new \<and>
     (\<forall>d cs r. Forward_pass d cs r \<in> set new \<longrightarrow>
        (\<exists>p tr z. forward lib (dense rt) (net s1) p tr z d = (cs, r)))" ..
  have "snd (test lib rt ds s) = snd (test_loop lib rt ds s1 0)"
    by (simp add: test_def Let_def s1_def [symmetric] test_loader_def split: prod.splits sum.splits)
  then show ?thesis
    using n s1 by (intro exI [of _ "Model_eval # new"]) auto
qed

section \<open>The small instance runs\<close>

lemma Linear_zero_weight:
  "Linear l \<lparr>weight = (\<lambda>j i. 0), bias = b\<rparr> x =
     (if list_all (\<lambda>row. length row = in_features l) x
      then Inr (replicate (length x) (map b [0..<out_features l])) else Inl RuntimeError)"
  by (simp add: Linear_def map_replicate_const sum_list_replicate)

lemma log_softmax_replicate:
  "log_softmax (replicate V row) = replicate V (map (\<lambda>v. v - ln (\<Sum>u\<leftarrow>row. exp u)) row)"
  by (simp add: log_softmax_def)

lemma cat_toy:
  "cat_dim2 (replicate V (zero_features a)) (replicate V (zero_features b)) =
     Inr (replicate V (zero_features (a + b)))"
  by (simp add: cat_dim2_def zero_features_def list_all2_conv_all_nth map_replicate_const replicate_add)

lemma list_all_replicate: "list_all P (replicate n x) = (n = 0 \<or> P x)"
  by (cases n) (auto simp: list_all_iff)

lemma sum_dim1_toy:
  "sum_dim1 (toy_magnitudes (replicate V (zero_features c))) = replicate V (replicate c 0)"
proof -
  have w: "channels [zero_features c] = c"
    by (simp add: channels_def zero_features_def numeral_2_eq_2)
  have "map sum_list (map (\<lambda>k. map (\<lambda>s. case s ! k of (a, b) \<Rightarrow> sqrt (a * a + b * b))
      (zero_features c)) [0..<c]) = replicate c 0"
    by (rule nth_equalityI) (simp_all add: zero_features_def sum_list_replicate)
  then show ?thesis
    by (simp add: sum_dim1_def toy_magnitudes_def w)
qed

lemma toy_forward:
  assumes "0 < V"
  shows "snd (forward toy_library (dense toy_runtime) (Net_init n) p tr z (toy_sample V)) =
     Inr (toy_output V n)"
proof -
  have V: "min (Suc 0) V = Suc 0" using assms by simp
  show ?thesis
    by (simp add: V forward_def Let_def snd_and_then snd_calls toy_runtime_def Linear_zero_weight
        toy_sample_def Net_init_def nf_def block_def toy_library_def relu_def zeros_like_def
        stack_last_def unsqueeze1_def cat_toy list_all_replicate sum_dim1_toy dropout_shape
        log_softmax_replicate toy_output_def comp_def)
qed

lemma toy_loss:
  "\<exists>l. nll_loss (toy_output n n) [0..<n] = Inr l"
  by (simp add: nll_loss_def toy_output_def list_all2_conv_all_nth)

lemma toy_train_batch:
  assumes "0 < n" and "net s = Net_init n" and "target s = [0..<n]"
  shows "fst (train_batch toy_library toy_runtime (toy_sample n) s) = None"
proof -
  define s1 where "s1 = record_event Zero_grad
      ((record_event (To_device (toy_sample n)) s)
       \<lparr>parameters := zero_grad toy_runtime (parameters (record_event (To_device (toy_sample n)) s))\<rparr>)"
  define fw where "fw = forward toy_library (dense toy_runtime) (net s1) (parameters s1) (training s1)
      (dropout_draw toy_runtime (length (history s1))) (toy_sample n)"
  have s1: "net s1 = Net_init n" "target s1 = [0..<n]"
    using assms by (simp_all add: s1_def record_event_def)
  have "snd fw = Inr (toy_output n n)"
    unfolding fw_def s1 using assms(1) by (rule toy_forward)
  then have fw: "forward toy_library (dense toy_runtime) (net s1) (parameters s1) (training s1)
      (dropout_draw toy_runtime (length (history s1))) (toy_sample n) = (fst fw, Inr (toy_output n n))"
    by (simp add: fw_def prod_eq_iff)
  obtain l where l: "nll_loss (toy_output n n) [0..<n] = Inr l"
    using toy_loss by blast
  show ?thesis
    apply (unfold train_batch_def Let_def to_device_def)
    apply (fold s1_def)
    apply (simp only: fw prod.case)
    apply (simp add: record_event_def s1 l split: prod.splits)
    done
qed

lemma toy_train_batches:
  assumes "0 < n" and "net s = Net_init n" and "target s = [0..<n]"
  shows "fst (train_batches toy_library toy_runtime (replicate k (toy_sample n)) s) = None"
  using assms(2,3)
proof (induction k arbitrary: s)
  case 0
  show ?case by simp
next
  case (Suc k)
  obtain r s1 where b: "train_batch toy_library toy_runtime (toy_sample n) s = (r, s1)"
    by (cases "train_batch toy_library toy_runtime (toy_sample n) s")
  have r: "r = None"
    using toy_train_batch [OF assms(1) Suc.prems] by (simp add: b)
  have "same_configuration s s1"
    using train_batch_configuration [of s toy_library toy_runtime "toy_sample n"] by (simp add: b)
  then have "net s1 = Net_init n" "target s1 = [0..<n]"
    using Suc.prems by (simp_all add: same_configuration_def)
  then have "fst (train_batches toy_library toy_runtime (replicate k (toy_sample n)) s1) = None"
    by (rule Suc.IH)
  then show ?case
    by (simp add: b r)
qed

lemma toy_train:
  assumes "0 < n" and "net s = Net_init n" and "target s = [0..<n]"
  shows "fst (train toy_library toy_runtime (replicate k (toy_sample n)) epoch s) = None"
proof -
  obtain s2 where s2:
    "train toy_library toy_runtime (replicate k (toy_sample n)) epoch s =
       train_batches toy_library toy_runtime
         (train_loader toy_runtime (replicate k (toy_sample n)) (length (history s2))) s2"
    "net s2 = net s" "target s2 = target s"
    by (rule train_unfold)
  have l: "train_loader toy_runtime (replicate k (toy_sample n)) (length (history s2)) =
      replicate k (toy_sample n)"
    by (simp add: train_loader_def toy_runtime_def)
  show ?thesis
    unfolding s2(1) l using assms s2(2,3) by (intro toy_train_batches) simp_all
qed

lemma toy_epoch_loop:
  assumes "0 < n" and "net s = Net_init n" and "target s = [0..<n]"
  shows "fst (epoch_loop toy_library toy_runtime (replicate k (toy_sample n)) es s) = None"
  using assms(2,3)
proof (induction es arbitrary: s)
  case Nil
  show ?case by simp
next
  case (Cons e es)
  define s0 where "s0 = record_event (Print_epoch e) s"
  have s0: "net s0 = Net_init n" "target s0 = [0..<n]"
    using Cons.prems by (simp_all add: s0_def record_event_def)
  obtain r s1 where t: "train toy_library toy_runtime (replicate k (toy_sample n)) e s0 = (r, s1)"
    by (cases "train toy_library toy_runtime (replicate k (toy_sample n)) e s0")
  have r: "r = None"
    using toy_train [OF assms(1) s0, of k e] by (simp add: t)
  have "net s1 = Net_init n" "target s1 = [0..<n]"
    using train_fields [of toy_library toy_runtime "replicate k (toy_sample n)" e s0]
    by (simp_all add: t s0)
  then have "fst (epoch_loop toy_library toy_runtime (replicate k (toy_sample n)) es s1) = None"
    by (rule Cons.IH)
  then show ?case
    by (simp add: s0_def [symmetric] t r)
qed

lemma toy_initial_world:
  "initial_world toy_runtime (toy_sample n # rest) = Inr (toy_world n)"
  by (simp add: initial_world_def toy_world_def toy_runtime_def data_num_nodes_def toy_sample_def)

text \<open>The state in which the small instance ends its training on \<open>k\<close> samples of \<open>n\<close> vertices.\<close>

lemma toy_training_run:
  assumes "0 < n"
  shows "fst (training_run toy_library toy_runtime (replicate k (toy_sample n)) (toy_world n)) = None \<and>
    net (snd (training_run toy_library toy_runtime (replicate k (toy_sample n)) (toy_world n))) = Net_init n \<and>
    target (snd (training_run toy_library toy_runtime (replicate k (toy_sample n)) (toy_world n))) = [0..<n] \<and>
    num_nodes (snd (training_run toy_library toy_runtime (replicate k (toy_sample n)) (toy_world n))) = n"
proof -
  have w: "net (toy_world n) = Net_init n" "target (toy_world n) = [0..<n]" "num_nodes (toy_world n) = n"
    by (simp_all add: toy_world_def)
  show ?thesis
    unfolding training_run_def
    using toy_epoch_loop [OF assms w(1,2), of k "[0..<100]"]
      epoch_loop_fields [of toy_library toy_runtime "replicate k (toy_sample n)" "[0..<100]" "toy_world n"]
    by (simp add: w)
qed

lemma lin4_width: "out_features (lin4 (Net_init n)) = n"
  by (simp add: Net_init_def)

lemma toy_predict_2:
  assumes "net s = Net_init 2" and "0 < V"
  shows "predict toy_library toy_runtime s (toy_sample V) = Inr (replicate V 1)"
proof -
  have "[0..<2] = [0, Suc 0]"
    by (simp add: numeral_2_eq_2)
  then have "max_dim1_indices 2 (toy_output V 2) = Inr (replicate V 1)"
    by (simp add: max_dim1_indices_def toy_output_def list_ex_iff)
  then show ?thesis
    using toy_forward [OF assms(2), of 2] by (simp add: predict_def assms(1) to_device_def lin4_width)
qed

lemma toy_predict_1:
  assumes "net s = Net_init 1" and "0 < V"
  shows "predict toy_library toy_runtime s (toy_sample V) = Inr (replicate V 0)"
proof -
  have "max_dim1_indices 1 (toy_output V 1) = Inr (replicate V 0)"
    by (simp add: max_dim1_indices_def toy_output_def list_ex_iff)
  then show ?thesis
    using toy_forward [OF assms(2), of 1] by (simp add: predict_def assms(1) to_device_def lin4_width)
qed

section \<open>The learning rate\<close>

text \<open>
  Claim C10, as amended. A call \<^verbatim>\<open>train(epoch)\<close> with an epoch other than 60 leaves the
  learning rates of the optimizer as they are, whether it returns or raises. The state
  after the call is the state before it with, at most, other parameters of the model
  (with their gradients), another internal state of the optimizer, the mode flag set to
  training, and the random generator advanced: the history of the calls, whose length
  is the time of the next random draw, is the history before the call, followed by the
  call of \<^verbatim>\<open>model.train()\<close> and the calls of the batches.
\<close>

theorem train_keeps_learning_rate:
  assumes "epoch \<noteq> 60"
  shows "learning_rates (snd (train lib rt train_dataset epoch s)) = learning_rates s \<and>
     (\<exists>p st new. snd (train lib rt train_dataset epoch s) =
        s\<lparr>parameters := p, opt_state := st, training := True,
          history := history s @ Model_train # new\<rparr>)"
proof -
  define s' where "s' = snd (train lib rt train_dataset epoch s)"
  have f: "net s' = net s" "target s' = target s" "num_nodes s' = num_nodes s" "training s' = True"
    "param_groups s' = param_groups s"
    using train_fields [of lib rt train_dataset epoch s] assms by (simp_all add: s'_def)
  obtain new where n: "history s' = history s @ Model_train # new"
    using train_history [of lib rt train_dataset epoch s] unfolding s'_def by (elim exE conjE)
  have "s' = s\<lparr>parameters := parameters s', opt_state := opt_state s', training := True,
      history := history s @ Model_train # new\<rparr>"
    by (rule world.equality) (simp_all add: f n)
  then have "\<exists>p st new. s' = s\<lparr>parameters := p, opt_state := st, training := True,
      history := history s @ Model_train # new\<rparr>"
    by (intro exI)
  then show ?thesis
    using f(5) by (simp add: s'_def learning_rates_def)
qed

theorem train_keeps_learning_rate_witness:
  "(3::nat) \<noteq> 60 \<and>
   learning_rates (snd (train toy_library toy_runtime [toy_sample 2] 3 (toy_world 2))) =
     [Some (1 / 100)]"
  using train_keeps_learning_rate [of 3 toy_library toy_runtime "[toy_sample 2]" "toy_world 2"]
  by (simp add: learning_rates_def toy_world_def)

text \<open>
  Claim C10 as stated fails: the parameters, the optimizer's internal state and the
  mode flag are not all the state that \<^verbatim>\<open>train\<close> mutates. An iteration over the shuffling
  loader and every dropout of a forward pass in training mode draw from the random
  generator and advance it. In the small instance, a call \<^verbatim>\<open>train(3)\<close> on one sample
  makes seven calls, and leaves a state that is not the state before it with other
  parameters, another internal state of the optimizer and the mode flag set: the next
  draw of a dropout after the call is not the draw that would have been made before it.
\<close>

theorem train_advances_random_draws:
  "\<not> (\<exists>p st. snd (train toy_library toy_runtime [toy_sample 2] 3 (toy_world 2)) =
         (toy_world 2)\<lparr>parameters := p, opt_state := st, training := True\<rparr>) \<and>
   length (history (snd (train toy_library toy_runtime [toy_sample 2] 3 (toy_world 2)))) = 7 \<and>
   length (history (toy_world 2)) = 0 \<and>
   dropout_draw toy_runtime
       (length (history (snd (train toy_library toy_runtime [toy_sample 2] 3 (toy_world 2))))) 0 0 \<noteq>
     dropout_draw toy_runtime (length (history (toy_world 2))) 0 0"
proof -
  define s' where "s' = snd (train toy_library toy_runtime [toy_sample 2] 3 (toy_world 2))"
  have "fst (train toy_library toy_runtime (replicate 1 (toy_sample 2)) 3 (toy_world 2)) = None"
    by (rule toy_train) (simp_all add: toy_world_def)
  then have r: "fst (train toy_library toy_runtime [toy_sample 2] 3 (toy_world 2)) = None"
    by simp
  obtain new where n: "history s' = history (toy_world 2) @ Model_train # new"
    "fst (train toy_library toy_runtime [toy_sample 2] 3 (toy_world 2)) = None \<longrightarrow>
       map call_name new =
         concat (replicate (length (train_loader toy_runtime [toy_sample 2]
           (Suc (length (history (toy_world 2)))))) batch_calls)"
    using train_history [of toy_library toy_runtime "[toy_sample 2]" 3 "toy_world 2"]
    unfolding s'_def by (elim exE conjE)
  have "map call_name new = batch_calls"
    using n(2) r by (simp add: train_loader_def toy_runtime_def)
  then have "length (map call_name new) = 6"
    by (simp add: batch_calls_def)
  then have l: "length (history s') = 7"
    using n(1) by (simp add: toy_world_def)
  have z: "length (history (toy_world 2)) = 0"
    by (simp add: toy_world_def)
  have "\<not> (\<exists>p st. s' = (toy_world 2)\<lparr>parameters := p, opt_state := st, training := True\<rparr>)"
  proof
    assume "\<exists>p st. s' = (toy_world 2)\<lparr>parameters := p, opt_state := st, training := True\<rparr>"
    then obtain p st where "s' = (toy_world 2)\<lparr>parameters := p, opt_state := st, training := True\<rparr>"
      by (elim exE)
    then have "history s' = history (toy_world 2)"
      by simp
    with l z show False
      by simp
  qed
  moreover have "dropout_draw toy_runtime (length (history s')) 0 0 \<noteq>
      dropout_draw toy_runtime (length (history (toy_world 2))) 0 0"
    unfolding l z by (simp add: toy_runtime_def)
  ultimately show ?thesis
    using l z unfolding s'_def by simp
qed

text \<open>
  Claim C1. Let the notebook run from its initial state and reach the call
  \<^verbatim>\<open>train(epoch)\<close> of an epoch below 100, in the state \<open>s\<close>. Then the learning rate is 0.01
  in \<open>s\<close> when the epoch is at most 60, and 0.001 later; after the call, in \<open>s'\<close>, it is
  0.01 when the epoch is below 60 and 0.001 from epoch 60 on, and that is the rate
  every optimizer step of the call reads; and the call changes the rate exactly when
  the epoch is 60.
\<close>

theorem learning_rate_schedule:
  assumes "initial_world rt train_dataset = Inr s0"
    and "epoch < 100"
    and "fst (epoch_loop lib rt train_dataset [0..<epoch] s0) = None"
    and "s = record_event (Print_epoch epoch) (snd (epoch_loop lib rt train_dataset [0..<epoch] s0))"
    and "s' = snd (train lib rt train_dataset epoch s)"
  shows "learning_rates s = [Some (if epoch \<le> 60 then 1 / 100 else 1 / 1000)] \<and>
     learning_rates s' = [Some (if epoch < 60 then 1 / 100 else 1 / 1000)] \<and>
     (\<forall>gs. Optimizer_step gs \<in> set (drop (length (history s)) (history s')) \<longrightarrow>
        map (\<lambda>param_group. param_group ''lr'') gs = [Some (if epoch < 60 then 1 / 100 else 1 / 1000)]) \<and>
     ((learning_rates s' \<noteq> learning_rates s) = (epoch = 60))"
proof -
  have g0: "param_groups s0 = [[''lr'' \<mapsto> 1 / 100]]"
    using assms(1) by (auto simp: initial_world_def Let_def split: list.splits)
  have "param_groups s =
      (if 60 \<in> set [0..<epoch] then map (\<lambda>param_group. param_group(''lr'' \<mapsto> 1 / 1000)) (param_groups s0)
       else param_groups s0)"
    using epoch_loop_param_groups [OF assms(3)] by (simp add: assms(4) record_event_def)
  then have a: "learning_rates s = [Some (if epoch \<le> 60 then 1 / 100 else 1 / 1000)]"
    by (auto simp: learning_rates_def g0)
  have "param_groups s' =
     (if epoch = 60 then map (\<lambda>param_group. param_group(''lr'' \<mapsto> 1 / 1000)) (param_groups s)
      else param_groups s)"
    using train_fields [of lib rt train_dataset epoch s] by (simp add: assms(5))
  then have "learning_rates s' =
     (if epoch = 60 then map (\<lambda>param_group. Some (1 / 1000)) (param_groups s) else learning_rates s)"
    by (simp add: learning_rates_def comp_def)
  then have b: "learning_rates s' = [Some (if epoch < 60 then 1 / 100 else 1 / 1000)]"
    using a by (auto simp: learning_rates_def)
  have "\<exists>new. history (snd (train lib rt train_dataset epoch s)) = history s @ Model_train # new \<and>
     batch_events_ok lib rt (snd (train lib rt train_dataset epoch s)) new \<and>
     (fst (train lib rt train_dataset epoch s) = None \<longrightarrow>
        map call_name new =
          concat (replicate (length (train_loader rt train_dataset (Suc (length (history s))))) batch_calls))"
    by (rule train_history)
  then obtain new where "history s' = history s @ Model_train # new \<and> batch_events_ok lib rt s' new"
    unfolding assms(5) by blast
  then have c: "\<forall>gs. Optimizer_step gs \<in> set (drop (length (history s)) (history s')) \<longrightarrow>
        map (\<lambda>param_group. param_group ''lr'') gs = [Some (if epoch < 60 then 1 / 100 else 1 / 1000)]"
    using b by (auto simp: batch_events_ok_def learning_rates_def)
  have d: "(learning_rates s' \<noteq> learning_rates s) = (epoch = 60)"
    using a b by auto
  show ?thesis
    using a b c d by blast
qed

theorem learning_rate_schedule_witness:
  "initial_world toy_runtime [toy_sample 2] = Inr (toy_world 2) \<and>
   fst (epoch_loop toy_library toy_runtime [toy_sample 2] [0..<60] (toy_world 2)) = None \<and>
   learning_rates (record_event (Print_epoch 60)
       (snd (epoch_loop toy_library toy_runtime [toy_sample 2] [0..<60] (toy_world 2)))) =
     [Some (1 / 100)] \<and>
   learning_rates (snd (train toy_library toy_runtime [toy_sample 2] 60
       (record_event (Print_epoch 60)
          (snd (epoch_loop toy_library toy_runtime [toy_sample 2] [0..<60] (toy_world 2)))))) =
     [Some (1 / 1000)]"
proof -
  have i: "initial_world toy_runtime [toy_sample 2] = Inr (toy_world 2)"
    by (rule toy_initial_world)
  have "fst (epoch_loop toy_library toy_runtime (replicate 1 (toy_sample 2)) [0..<60] (toy_world 2)) = None"
    by (rule toy_epoch_loop) (simp_all add: toy_world_def)
  then have l: "fst (epoch_loop toy_library toy_runtime [toy_sample 2] [0..<60] (toy_world 2)) = None"
    by simp
  show ?thesis
    using learning_rate_schedule [OF i _ l refl refl] i l by simp
qed

section \<open>The training run\<close>



section \<open>The loss and its target\<close>


lemma initial_world_fields:
  assumes "initial_world rt train_dataset = Inr s0"
  shows "train_dataset \<noteq> [] \<and> num_nodes s0 = data_num_nodes (hd train_dataset) \<and>
     net s0 = Net_init (num_nodes s0) \<and> target s0 = [0..<num_nodes s0] \<and> history s0 = [] \<and>
     param_groups s0 = [[''lr'' \<mapsto> 1 / 100]] \<and> training s0"
  using assms by (auto simp: initial_world_def Let_def split: list.splits)



lemma forward_success_head:
  assumes "forward lib dn nt p tr z data = (cs, Inr out)"
  shows "\<exists>y3 y4. Linear (lin4 nt) (dn p Lin4) (dropout z tr (relu y3)) = Inr y4 \<and> out = log_softmax y4"
  using forward_success [OF assms] by (elim exE conjE) (intro exI conjI, assumption, assumption)

lemma forward_success_blocks:
  assumes "forward lib dn nt p tr z data = (cs, Inr out)"
  shows "\<exists>d0 xpre x1 data' dp.
           scale0_transform lib data = Inr d0 \<and>
           ParallelTransportPool lib (pool nt) xpre data = Inr (x1, data', dp) \<and>
           block_attributes cs =
             [(B11, edge_index d0, precomp d0, connection d0),
              (B12, edge_index d0, precomp d0, connection d0),
              (B21, edge_index dp, precomp dp, connection dp),
              (B22, edge_index dp, precomp dp, connection dp),
              (B31, edge_index dp, precomp dp, connection dp),
              (B32, edge_index dp, precomp dp, connection dp),
              (B41, edge_index d0, precomp d0, connection d0),
              (B42, edge_index d0, precomp d0, connection d0)]"
  using forward_success [OF assms]
  by (elim exE conjE) (intro exI conjI, assumption, assumption, simp add: block_attributes_def)

section \<open>The forward pass\<close>

text \<open>
  Claim C4. After any number of epochs of the training run, for every sample, whatever
  the parameters, the mode and the draw of the dropout: when the forward pass of the
  model returns, every row of its output (one row per vertex of the features that reach
  the dense layers) has exactly \<open>num_nodes\<close> entries, the number of vertices of the first
  training sample and the number of outputs of the second dense layer; and the row is
  log-normalised: the exponentials of its entries sum to one (the entries taken as real
  numbers).
\<close>

theorem forward_output_rows:
  assumes "initial_world rt train_dataset = Inr s0"
    and "s = snd (epoch_loop lib rt train_dataset epochs s0)"
    and "snd (forward lib (dense rt) (net s) p tr z data) = Inr out"
  shows "num_nodes s0 = data_num_nodes (hd train_dataset) \<and>
     out_features (lin4 (net s)) = num_nodes s0 \<and>
     list_all (\<lambda>row. length row = num_nodes s0 \<and> (0 < num_nodes s0 \<longrightarrow> (\<Sum>v\<leftarrow>row. exp v) = 1)) out"
proof -
  have i: "num_nodes s0 = data_num_nodes (hd train_dataset)" "net s0 = Net_init (num_nodes s0)"
    using initial_world_fields [OF assms(1)] by simp_all
  have n: "net s = Net_init (num_nodes s0)"
    using epoch_loop_fields [of lib rt train_dataset epochs s0] i(2) by (simp add: assms(2))
  have o: "out_features (lin4 (net s)) = num_nodes s0"
    by (simp add: n Net_init_def)
  have "forward lib (dense rt) (net s) p tr z data =
      (fst (forward lib (dense rt) (net s) p tr z data), Inr out)"
    using assms(3) by (simp add: prod_eq_iff)
  then have "\<exists>y3 y4. Linear (lin4 (net s)) (dense rt p Lin4) (dropout z tr (relu y3)) = Inr y4 \<and>
      out = log_softmax y4"
    by (rule forward_success_head)
  then obtain y3 y4 where y: "Linear (lin4 (net s)) (dense rt p Lin4) (dropout z tr (relu y3)) = Inr y4"
    "out = log_softmax y4"
    by blast
  have r4: "list_all (\<lambda>row. length row = num_nodes s0) y4"
    using Linear_rows [OF y(1)] o by simp
  have "length row = num_nodes s0 \<and> (0 < num_nodes s0 \<longrightarrow> (\<Sum>v\<leftarrow>row. exp v) = 1)"
    if "row \<in> set out" for row
  proof -
    from that obtain r where r: "r \<in> set y4" "length row = length r"
      "r \<noteq> [] \<longrightarrow> (\<Sum>v\<leftarrow>row. exp v) = 1"
      unfolding y(2) using log_softmax_rows by blast
    have "length r = num_nodes s0"
      using r4 r(1) by (simp add: list_all_iff)
    then show ?thesis
      using r(2,3) by auto
  qed
  then show ?thesis
    using i(1) o by (simp add: list_all_iff)
qed

theorem forward_output_rows_witness:
  "initial_world toy_runtime [toy_sample 2] = Inr (toy_world 2) \<and>
   snd (forward toy_library (dense toy_runtime)
     (net (snd (epoch_loop toy_library toy_runtime [toy_sample 2] [0..<100] (toy_world 2))))
     0 True (\<lambda>i j. even (i + j)) (toy_sample 3)) = Inr (toy_output 3 2) \<and>
   list_all (\<lambda>row. length row = 2 \<and> (\<Sum>v\<leftarrow>row. exp v) = 1) (toy_output 3 2)"
proof -
  have i: "initial_world toy_runtime [toy_sample 2] = Inr (toy_world 2)"
    by (rule toy_initial_world)
  have n: "net (snd (epoch_loop toy_library toy_runtime [toy_sample 2] [0..<100] (toy_world 2))) =
      Net_init 2"
    using epoch_loop_fields [of toy_library toy_runtime "[toy_sample 2]" "[0..<100]" "toy_world 2"]
    by (simp add: toy_world_def)
  have f: "snd (forward toy_library (dense toy_runtime)
     (net (snd (epoch_loop toy_library toy_runtime [toy_sample 2] [0..<100] (toy_world 2))))
     0 True (\<lambda>i j. even (i + j)) (toy_sample 3)) = Inr (toy_output 3 2)"
    unfolding n by (rule toy_forward) simp
  have w: "num_nodes (toy_world 2) = 2"
    by (simp add: toy_world_def)
  show ?thesis
    using forward_output_rows [OF i refl f] i f by (simp add: w)
qed

text \<open>
  Claim C7. In a forward pass, whatever its outcome, a call of one of the two blocks
  after the unpooling is given the attributes (\<open>edge_index\<close>, \<open>precomp\<close>, \<open>connection\<close>) of
  the sample that the transform of scale 0 returned for the argument of the pass, as a
  call of one of the two blocks before the pooling is, the sample the pooling returned
  having no part in them. A pass that returns has called the eight blocks in order: the
  two of the first stack and the two after the unpooling with these attributes, the
  four between them with the attributes of the pooled sample.
\<close>

theorem decoder_blocks_attributes:
  assumes "forward lib dn nt p tr z data = (cs, r)"
  shows "(\<forall>b x a res. Block b x a res \<in> set cs \<and> (b = B11 \<or> b = B12 \<or> b = B41 \<or> b = B42) \<longrightarrow>
            (\<exists>d0. scale0_transform lib data = Inr d0 \<and>
                  a = (edge_index d0, precomp d0, connection d0))) \<and>
     (\<forall>out. r = Inr out \<longrightarrow>
        (\<exists>d0 xpre x1 data' dp.
           scale0_transform lib data = Inr d0 \<and>
           ParallelTransportPool lib (pool nt) xpre data = Inr (x1, data', dp) \<and>
           block_attributes cs =
             [(B11, edge_index d0, precomp d0, connection d0),
              (B12, edge_index d0, precomp d0, connection d0),
              (B21, edge_index dp, precomp dp, connection dp),
              (B22, edge_index dp, precomp dp, connection dp),
              (B31, edge_index dp, precomp dp, connection dp),
              (B32, edge_index dp, precomp dp, connection dp),
              (B41, edge_index d0, precomp d0, connection d0),
              (B42, edge_index d0, precomp d0, connection d0)]))"
proof -
  have a: "\<forall>b x a res. Block b x a res \<in> set cs \<and> (b = B11 \<or> b = B12 \<or> b = B41 \<or> b = B42) \<longrightarrow>
            (\<exists>d0. scale0_transform lib data = Inr d0 \<and>
                  a = (edge_index d0, precomp d0, connection d0))"
    using forward_calls [OF assms] by (rule conjunct1)
  have b: "\<exists>d0 xpre x1 data' dp.
           scale0_transform lib data = Inr d0 \<and>
           ParallelTransportPool lib (pool nt) xpre data = Inr (x1, data', dp) \<and>
           block_attributes cs =
             [(B11, edge_index d0, precomp d0, connection d0),
              (B12, edge_index d0, precomp d0, connection d0),
              (B21, edge_index dp, precomp dp, connection dp),
              (B22, edge_index dp, precomp dp, connection dp),
              (B31, edge_index dp, precomp dp, connection dp),
              (B32, edge_index dp, precomp dp, connection dp),
              (B41, edge_index d0, precomp d0, connection d0),
              (B42, edge_index d0, precomp d0, connection d0)]"
    if "r = Inr out" for out
    using forward_success_blocks [OF assms [unfolded that]] .
  show ?thesis
    using a b by blast
qed

theorem decoder_blocks_attributes_witness:
  "snd (forward toy_library (dense toy_runtime) (Net_init 2) 0 False (\<lambda>i j. False) (toy_sample 2)) =
     Inr (toy_output 2 2) \<and>
   block_attributes
     (fst (forward toy_library (dense toy_runtime) (Net_init 2) 0 False (\<lambda>i j. False) (toy_sample 2))) =
     [(B11, 0, 0, 0), (B12, 0, 0, 0), (B21, 1, 1, 1), (B22, 1, 1, 1), (B31, 1, 1, 1), (B32, 1, 1, 1),
      (B41, 0, 0, 0), (B42, 0, 0, 0)]"
proof -
  have f: "snd (forward toy_library (dense toy_runtime) (Net_init 2) 0 False (\<lambda>i j. False)
      (toy_sample 2)) = Inr (toy_output 2 2)"
    by (rule toy_forward) simp
  have "forward toy_library (dense toy_runtime) (Net_init 2) 0 False (\<lambda>i j. False) (toy_sample 2) =
     (fst (forward toy_library (dense toy_runtime) (Net_init 2) 0 False (\<lambda>i j. False) (toy_sample 2)),
      Inr (toy_output 2 2))"
    using f by (simp add: prod_eq_iff)
  from decoder_blocks_attributes [OF this]
  show ?thesis
    using f by (auto simp: toy_library_def toy_sample_def)
qed

lemma forward_success_pooling:
  assumes "forward lib dn nt p tr z data = (cs, Inr out)"
  shows "\<exists>xpre x1 data' dp.
     ParallelTransportPool lib (pool nt) xpre data = Inr (x1, data', dp) \<and>
     filter is_pool cs = [Pool xpre data (Inr (x1, data', dp))] \<and>
     unpool_samples cs = [data']"
  using forward_success [OF assms]
  by (elim exE conjE)
    (intro exI conjI, assumption, simp_all add: is_pool_def unpool_samples_def)

text \<open>
  Claim C8. In a forward pass, whatever its outcome, the pooling and the unpooling are
  paired: if the unpooling is called at all then the pass has called the pooling exactly
  once, that call returned, and the unpooling is given the sample that it returned as
  its second result. A pass that returns has made both calls. Every forward
  pass that the training run and a test after it have made is paired in itself: the
  record of each pass holds its own pooling and its own unpooling. (The pooling result
  is a local of the pass; the state of the notebook has no component that holds one.)
\<close>

theorem unpool_takes_pool_result:
  assumes "initial_world rt train_dataset = Inr s0"
    and "s = snd (test lib rt test_dataset (snd (epoch_loop lib rt train_dataset epochs s0)))"
  shows "pooling_paired (fst (forward lib dn nt p tr z data)) \<and>
     (\<forall>out. snd (forward lib dn nt p tr z data) = Inr out \<longrightarrow>
        (\<exists>xpre x1 data' dp.
           ParallelTransportPool lib (pool nt) xpre data = Inr (x1, data', dp) \<and>
           filter is_pool (fst (forward lib dn nt p tr z data)) = [Pool xpre data (Inr (x1, data', dp))] \<and>
           unpool_samples (fst (forward lib dn nt p tr z data)) = [data'])) \<and>
     (\<forall>d cs r. Forward_pass d cs r \<in> set (history s) \<longrightarrow> pooling_paired cs)"
proof -
  have a: "pooling_paired (fst (forward lib dn nt p tr z data))"
    using forward_calls [of lib dn nt p tr z data "fst (forward lib dn nt p tr z data)"
        "snd (forward lib dn nt p tr z data)"]
    by simp
  have b: "\<exists>xpre x1 data' dp.
           ParallelTransportPool lib (pool nt) xpre data = Inr (x1, data', dp) \<and>
           filter is_pool (fst (forward lib dn nt p tr z data)) = [Pool xpre data (Inr (x1, data', dp))] \<and>
           unpool_samples (fst (forward lib dn nt p tr z data)) = [data']"
    if "snd (forward lib dn nt p tr z data) = Inr out" for out
  proof -
    have "forward lib dn nt p tr z data = (fst (forward lib dn nt p tr z data), Inr out)"
      using that by (simp add: prod_eq_iff)
    then show ?thesis
      by (rule forward_success_pooling)
  qed
  define s1 where "s1 = snd (epoch_loop lib rt train_dataset epochs s0)"
  have n1: "net s1 = net s0"
    using epoch_loop_fields [of lib rt train_dataset epochs s0] by (simp add: s1_def)
  have "\<exists>new. history (snd (epoch_loop lib rt train_dataset epochs s0)) = history s0 @ new \<and>
     losses_on_target (target s0) new \<and>
     (\<forall>d cs r. Forward_pass d cs r \<in> set new \<longrightarrow>
        (\<exists>p tr z. forward lib (dense rt) (net s0) p tr z d = (cs, r))) \<and>
     (fst (epoch_loop lib rt train_dataset epochs s0) = None \<longrightarrow>
        epochs_printed new = epochs \<and>
        ((\<forall>time. length (shuffle rt time train_dataset) = length train_dataset) \<longrightarrow>
           map call_name new = concat (map (\<lambda>e. epoch_calls (length train_dataset)) epochs)))"
    by (rule epoch_loop_history)
  then obtain new1 where h1: "history s1 = history s0 @ new1"
    "\<forall>d cs r. Forward_pass d cs r \<in> set new1 \<longrightarrow>
        (\<exists>p tr z. forward lib (dense rt) (net s0) p tr z d = (cs, r))"
    unfolding s1_def by blast
  have "\<exists>new. history (snd (test lib rt test_dataset s1)) = history s1 @ new \<and>
     (\<forall>d cs r. Forward_pass d cs r \<in> set new \<longrightarrow>
        (\<exists>p tr z. forward lib (dense rt) (net s1) p tr z d = (cs, r)))"
    by (rule test_history)
  then obtain new2 where h2: "history s = history s1 @ new2"
    "\<forall>d cs r. Forward_pass d cs r \<in> set new2 \<longrightarrow>
        (\<exists>p tr z. forward lib (dense rt) (net s0) p tr z d = (cs, r))"
    unfolding assms(2) s1_def [symmetric] n1 by blast
  have h0: "history s0 = []"
    using initial_world_fields [OF assms(1)] by simp
  have c: "pooling_paired cs" if "Forward_pass d cs r \<in> set (history s)" for d cs r
  proof -
    from that have "Forward_pass d cs r \<in> set new1 \<or> Forward_pass d cs r \<in> set new2"
      by (simp add: h2(1) h1(1) h0)
    then obtain p' tr' z' where "forward lib (dense rt) (net s0) p' tr' z' d = (cs, r)"
      using h1(2) h2(2) by blast
    then show ?thesis
      by (rule forward_calls [THEN conjunct2])
  qed
  show ?thesis
    using a b c by blast
qed

theorem unpool_takes_pool_result_witness:
  "initial_world toy_runtime [toy_sample 2] = Inr (toy_world 2) \<and>
   pooling_paired
     (fst (forward toy_library (dense toy_runtime) (Net_init 2) 0 False (\<lambda>i j. False) (toy_sample 2))) \<and>
   unpool_samples
     (fst (forward toy_library (dense toy_runtime) (Net_init 2) 0 False (\<lambda>i j. False) (toy_sample 2))) =
     [(toy_sample 2)\<lparr>edge_index := 2\<rparr>] \<and>
   list_all (\<lambda>ev. case ev of Forward_pass d cs r \<Rightarrow> pooling_paired cs | _ \<Rightarrow> True)
     (history (snd (test toy_library toy_runtime [toy_sample 1]
        (snd (epoch_loop toy_library toy_runtime [toy_sample 2] [0..<100] (toy_world 2))))))"
proof -
  have i: "initial_world toy_runtime [toy_sample 2] = Inr (toy_world 2)"
    by (rule toy_initial_world)
  have f: "snd (forward toy_library (dense toy_runtime) (Net_init 2) 0 False (\<lambda>i j. False)
      (toy_sample 2)) = Inr (toy_output 2 2)"
    by (rule toy_forward) simp
  note t = unpool_takes_pool_result [OF i refl, where lib = toy_library
      and test_dataset = "[toy_sample 1]" and epochs = "[0..<100]" and dn = "dense toy_runtime"
      and nt = "Net_init 2" and p = 0 and tr = False and z = "\<lambda>i j. False" and data = "toy_sample 2"]
  have "unpool_samples
     (fst (forward toy_library (dense toy_runtime) (Net_init 2) 0 False (\<lambda>i j. False) (toy_sample 2))) =
     [(toy_sample 2)\<lparr>edge_index := 2\<rparr>]"
    using t f by (auto simp: toy_library_def)
  moreover have "list_all (\<lambda>ev. case ev of Forward_pass d cs r \<Rightarrow> pooling_paired cs | _ \<Rightarrow> True)
     (history (snd (test toy_library toy_runtime [toy_sample 1]
        (snd (epoch_loop toy_library toy_runtime [toy_sample 2] [0..<100] (toy_world 2))))))"
    using t by (auto simp: list_all_iff split: event.splits)
  ultimately show ?thesis
    using t i by simp
qed

lemma toy_forward_pass:
  "forward toy_library (dense toy_runtime) (Net_init 2) 0 False (\<lambda>i j. False) (toy_sample 2) =
     (fst (forward toy_library (dense toy_runtime) (Net_init 2) 0 False (\<lambda>i j. False) (toy_sample 2)),
      Inr (toy_output 2 2))"
proof -
  have "snd (forward toy_library (dense toy_runtime) (Net_init 2) 0 False (\<lambda>i j. False)
      (toy_sample 2)) = Inr (toy_output 2 2)"
    by (rule toy_forward) simp
  then show ?thesis
    by (simp add: prod_eq_iff)
qed

text \<open>
  Claim C6, as amended. In a forward pass, whatever its outcome, the input of the first
  block after the unpooling is the concatenation of the features the unpooling returned
  and the features saved before the pooling (what the second block returned and the
  pooling was given): for every vertex and stream the channels of the first followed by
  the channels of the second, so that the number of channels is the sum of the two
  numbers. A pass that returns has called the block. In the network of the notebook
  these are 32 and 16 channels, and the block is constructed for 48 input channels.
\<close>

theorem decoder_input_concatenation:
  assumes "forward lib dn nt p tr z data = (cs, r)"
  shows "(\<forall>xc a res. Block B41 xc a res \<in> set cs \<longrightarrow>
       (\<exists>x32 d xu x11 xp dd rp.
          Unpool x32 d (Inr xu) \<in> set cs \<and> Block B12 x11 a (Inr xp) \<in> set cs \<and>
          Pool xp dd rp \<in> set cs \<and>
          xc = map2 (map2 (@)) xu xp \<and> cat_dim2 xu xp = Inr xc \<and>
          (\<forall>v < length xu. \<forall>s < length (xu ! v).
             length (xc ! v ! s) = length (xu ! v ! s) + length (xp ! v ! s)))) \<and>
     (\<forall>out. r = Inr out \<longrightarrow> (\<exists>xc a res. Block B41 xc a res \<in> set cs)) \<and>
     in_channels (resnet_block41 (Net_init n)) =
       out_channels (resnet_block32 (Net_init n)) + out_channels (resnet_block12 (Net_init n)) \<and>
     out_channels (resnet_block32 (Net_init n)) = 32 \<and>
     out_channels (resnet_block12 (Net_init n)) = 16 \<and>
     in_channels (resnet_block41 (Net_init n)) = 48"
proof -
  note f = forward_concatenation [OF assms]
  have a: "\<exists>x32 d xu x11 xp dd rp.
          Unpool x32 d (Inr xu) \<in> set cs \<and> Block B12 x11 a (Inr xp) \<in> set cs \<and>
          Pool xp dd rp \<in> set cs \<and>
          xc = map2 (map2 (@)) xu xp \<and> cat_dim2 xu xp = Inr xc \<and>
          (\<forall>v < length xu. \<forall>s < length (xu ! v).
             length (xc ! v ! s) = length (xu ! v ! s) + length (xp ! v ! s))"
    if b: "Block B41 xc a res \<in> set cs" for xc a res
  proof -
    obtain x32 d xu x11 xp dd rp where
      c: "Unpool x32 d (Inr xu) \<in> set cs" "Block B12 x11 a (Inr xp) \<in> set cs"
      "Pool xp dd rp \<in> set cs" "cat_dim2 xu xp = Inr xc"
      using f [THEN conjunct1, rule_format, OF b] by (elim exE conjE)
    note l = cat_dim2_channels [OF c(4)]
    have x: "xc = map2 (map2 (@)) xu xp"
      using l by (rule conjunct1)
    have "\<forall>v < length xu. \<forall>s < length (xu ! v).
        length (xc ! v ! s) = length (xu ! v ! s) + length (xp ! v ! s)"
      using l by blast
    with c x show ?thesis
      by (intro exI conjI)
  qed
  have n: "in_channels (resnet_block41 (Net_init n)) =
       out_channels (resnet_block32 (Net_init n)) + out_channels (resnet_block12 (Net_init n))"
    "out_channels (resnet_block32 (Net_init n)) = 32"
    "out_channels (resnet_block12 (Net_init n)) = 16"
    "in_channels (resnet_block41 (Net_init n)) = 48"
    by (simp_all add: Net_init_def block_def nf_def)
  show ?thesis
    using a by (intro conjI allI impI f [THEN conjunct2, rule_format] n)
qed

theorem decoder_input_concatenation_witness:
  "snd (forward toy_library (dense toy_runtime) (Net_init 2) 0 False (\<lambda>i j. False) (toy_sample 2)) =
     Inr (toy_output 2 2) \<and>
   (\<exists>x32 d xu x11 a xp res.
       Unpool x32 d (Inr xu) \<in> set (fst (forward toy_library (dense toy_runtime) (Net_init 2) 0 False
          (\<lambda>i j. False) (toy_sample 2))) \<and>
       Block B12 x11 a (Inr xp) \<in> set (fst (forward toy_library (dense toy_runtime) (Net_init 2) 0 False
          (\<lambda>i j. False) (toy_sample 2))) \<and>
       Block B41 (map2 (map2 (@)) xu xp) a res \<in> set (fst (forward toy_library (dense toy_runtime)
          (Net_init 2) 0 False (\<lambda>i j. False) (toy_sample 2))) \<and>
       cat_dim2 xu xp = Inr (map2 (map2 (@)) xu xp))"
proof -
  define cs where "cs = fst (forward toy_library (dense toy_runtime) (Net_init 2) 0 False
     (\<lambda>i j. False) (toy_sample 2))"
  have f: "snd (forward toy_library (dense toy_runtime) (Net_init 2) 0 False (\<lambda>i j. False)
      (toy_sample 2)) = Inr (toy_output 2 2)"
    by (rule toy_forward) simp
  have p: "forward toy_library (dense toy_runtime) (Net_init 2) 0 False (\<lambda>i j. False) (toy_sample 2) =
      (cs, Inr (toy_output 2 2))"
    using f by (simp add: prod_eq_iff cs_def)
  note t = decoder_input_concatenation [OF p, of 2]
  obtain xc a res where b: "Block B41 xc a res \<in> set cs"
    using t [THEN conjunct2, THEN conjunct1, rule_format, OF refl] by (elim exE)
  obtain x32 d xu x11 xp where
    c: "Unpool x32 d (Inr xu) \<in> set cs" "Block B12 x11 a (Inr xp) \<in> set cs"
    "xc = map2 (map2 (@)) xu xp" "cat_dim2 xu xp = Inr xc"
    using t [THEN conjunct1, rule_format, OF b] by (elim exE conjE)
  have "\<exists>x32 d xu x11 a xp res.
       Unpool x32 d (Inr xu) \<in> set cs \<and> Block B12 x11 a (Inr xp) \<in> set cs \<and>
       Block B41 (map2 (map2 (@)) xu xp) a res \<in> set cs \<and>
       cat_dim2 xu xp = Inr (map2 (map2 (@)) xu xp)"
    using c(1,2) b c(4) unfolding c(3) by (intro exI conjI)
  with f show ?thesis
    unfolding cs_def by (rule conjI)
qed

text \<open>
  Claim C6 as stated fails: the concatenation does not double the number of channels.
  On the small instance the first block after the unpooling is given 48 channels, the
  unpooling having returned 32 and the features saved before the pooling having 16; and
  the block is constructed for 48 input channels, neither twice the 16 of the block whose
  output is saved nor twice the 32 of the last block before the unpooling.
\<close>

theorem concatenation_does_not_double:
  "map channels (block_inputs B41 (fst (forward toy_library (dense toy_runtime) (Net_init 2) 0 False
      (\<lambda>i j. False) (toy_sample 2)))) = [48] \<and>
   map channels (unpool_outputs (fst (forward toy_library (dense toy_runtime) (Net_init 2) 0 False
      (\<lambda>i j. False) (toy_sample 2)))) = [32] \<and>
   map channels (block_outputs B12 (fst (forward toy_library (dense toy_runtime) (Net_init 2) 0 False
      (\<lambda>i j. False) (toy_sample 2)))) = [16] \<and>
   in_channels (resnet_block41 (Net_init 2)) \<noteq> 2 * out_channels (resnet_block12 (Net_init 2)) \<and>
   in_channels (resnet_block41 (Net_init 2)) \<noteq> 2 * out_channels (resnet_block32 (Net_init 2))"
  using forward_success [OF toy_forward_pass]
  apply (elim exE conjE)
  apply (simp add: toy_library_def toy_sample_def Net_init_def block_def nf_def toy_runtime_def
      Linear_zero_weight list_all_replicate relu_def zeros_like_def stack_last_def unsqueeze1_def
      block_inputs_def block_outputs_def unpool_outputs_def channels_def)
  apply (auto simp: zero_features_def cat_dim2_def numeral_2_eq_2)
  done

section \<open>The accuracy\<close>

lemma sum_list_bound:
  fixes f :: "'a \<Rightarrow> nat"
  assumes "\<forall>x \<in> set xs. f x \<le> c"
  shows "(\<Sum>x\<leftarrow>xs. f x) \<le> length xs * c"
  using assms by (induction xs) auto

lemma reached_world:
  assumes "initial_world rt train_dataset = Inr s0"
    and "s = snd (epoch_loop lib rt train_dataset epochs s0)"
  shows "num_nodes s = data_num_nodes (hd train_dataset) \<and> target s = [0..<num_nodes s] \<and>
     net s = Net_init (num_nodes s)"
  using initial_world_fields [OF assms(1)] epoch_loop_fields [of lib rt train_dataset epochs s0]
  by (simp add: assms(2))

text \<open>
  Claim C2, as amended. Let the test run in a state the training has reached, and let
  the model predict, for every test sample, exactly \<open>num_nodes\<close> indices. If \<^verbatim>\<open>test\<close> returns
  then its value is the number of vertices of all test samples whose predicted index
  (the arg-max of the vertex's row) is the vertex's own index, divided by the number of
  test samples times \<open>num_nodes\<close>.
\<close>

theorem test_accuracy:
  assumes "initial_world rt train_dataset = Inr s0"
    and "s = snd (epoch_loop lib rt train_dataset epochs s0)"
    and "\<forall>d \<in> set test_dataset. \<forall>pred. predict lib rt s d = Inr pred \<longrightarrow> length pred = num_nodes s"
    and "fst (test lib rt test_dataset s) = Inr r"
  shows "r = real (\<Sum>d\<leftarrow>test_dataset. correct_vertices (predict lib rt s d)) /
             real (length test_dataset * num_nodes s)"
proof -
  have t: "target s = [0..<num_nodes s]"
    using reached_world [OF assms(1,2)] by simp
  have v: "\<forall>d \<in> set test_dataset. \<exists>m. sample_matches lib rt s d = Inr m"
    "r = real (\<Sum>d\<leftarrow>test_dataset. case sample_matches lib rt s d of Inl e \<Rightarrow> 0 | Inr m \<Rightarrow> m) /
         real (length test_dataset * num_nodes s)"
    using assms(4) unfolding test_value by simp_all
  have "(case sample_matches lib rt s d of Inl e \<Rightarrow> 0 | Inr m \<Rightarrow> m) =
      correct_vertices (predict lib rt s d)" if "d \<in> set test_dataset" for d
  proof -
    from v(1) that obtain m where m: "sample_matches lib rt s d = Inr m"
      by blast
    then obtain pred where p: "predict lib rt s d = Inr pred" "eq_sum pred (target s) = Inr m"
      by (auto simp: sample_matches_def split: sum.splits)
    have "length pred = num_nodes s"
      using assms(3) that p(1) by blast
    then have "eq_sum pred (target s) = Inr (length (filter (\<lambda>i. pred ! i = i) [0..<length pred]))"
      unfolding t by (rule eq_sum_identity)
    then show ?thesis
      using m p by (simp add: correct_vertices_def)
  qed
  then have "map (\<lambda>d. case sample_matches lib rt s d of Inl e \<Rightarrow> 0 | Inr m \<Rightarrow> m) test_dataset =
      map (\<lambda>d. correct_vertices (predict lib rt s d)) test_dataset"
    by simp
  then have e: "(\<Sum>d\<leftarrow>test_dataset. case sample_matches lib rt s d of Inl e \<Rightarrow> 0 | Inr m \<Rightarrow> m) =
      (\<Sum>d\<leftarrow>test_dataset. correct_vertices (predict lib rt s d))"
    by (rule arg_cong)
  show ?thesis
    unfolding v(2) e by (rule refl)
qed

lemma toy_trained:
  assumes "0 < n" and "s = snd (epoch_loop toy_library toy_runtime [toy_sample n] epochs (toy_world n))"
  shows "net s = Net_init n \<and> target s = [0..<n] \<and> num_nodes s = n"
  using epoch_loop_fields [of toy_library toy_runtime "[toy_sample n]" epochs "toy_world n"]
  by (simp add: assms(2) toy_world_def)

theorem test_accuracy_witness:
  "initial_world toy_runtime [toy_sample 2] = Inr (toy_world 2) \<and>
   fst (test toy_library toy_runtime [toy_sample 2, toy_sample 2]
     (snd (epoch_loop toy_library toy_runtime [toy_sample 2] [0..<100] (toy_world 2)))) = Inr (1 / 2) \<and>
   real (\<Sum>d\<leftarrow>[toy_sample 2, toy_sample 2]. correct_vertices (predict toy_library toy_runtime
     (snd (epoch_loop toy_library toy_runtime [toy_sample 2] [0..<100] (toy_world 2))) d)) /
     real (length [toy_sample 2, toy_sample 2] *
       num_nodes (snd (epoch_loop toy_library toy_runtime [toy_sample 2] [0..<100] (toy_world 2)))) =
     1 / 2"
proof -
  define s where "s = snd (epoch_loop toy_library toy_runtime [toy_sample 2] [0..<100] (toy_world 2))"
  have i: "initial_world toy_runtime [toy_sample 2] = Inr (toy_world 2)"
    by (rule toy_initial_world)
  have s: "net s = Net_init 2" "target s = [0..<2]" "num_nodes s = 2"
    using toy_trained [of 2 s "[0..<100]"] by (simp_all add: s_def)
  have p: "predict toy_library toy_runtime s (toy_sample 2) = Inr (replicate 2 1)"
    using s(1) by (rule toy_predict_2) simp
  have u: "[0..<2] = [0, Suc 0]"
    by (simp add: numeral_2_eq_2)
  have "sample_matches toy_library toy_runtime s (toy_sample 2) = eq_sum (replicate 2 1) [0..<2]"
    by (simp add: sample_matches_def p s(2))
  also have "\<dots> = Inr 1"
    unfolding u by (simp add: eq_sum_def numeral_2_eq_2)
  finally have m: "sample_matches toy_library toy_runtime s (toy_sample 2) = Inr 1" .
  have t: "fst (test toy_library toy_runtime [toy_sample 2, toy_sample 2] s) = Inr (1 / 2)"
    unfolding test_value by (simp add: m s(3))
  have h: "\<forall>d \<in> set [toy_sample 2, toy_sample 2]. \<forall>pred.
      predict toy_library toy_runtime s d = Inr pred \<longrightarrow> length pred = num_nodes s"
    by (simp add: p s(3))
  show ?thesis
    using test_accuracy [OF i s_def h t] i t by (simp add: s_def [symmetric])
qed

lemma toy_notebook:
  assumes "0 < n"
  shows "notebook toy_library toy_runtime [toy_sample n] test_dataset =
     fst (test toy_library toy_runtime test_dataset
       (snd (training_run toy_library toy_runtime [toy_sample n] (toy_world n))))"
proof -
  have "fst (training_run toy_library toy_runtime (replicate 1 (toy_sample n)) (toy_world n)) = None"
    using toy_training_run [OF assms, of 1] by simp
  then have n: "fst (training_run toy_library toy_runtime [toy_sample n] (toy_world n)) = None"
    by simp
  obtain r s' where t: "training_run toy_library toy_runtime [toy_sample n] (toy_world n) = (r, s')"
    by (cases "training_run toy_library toy_runtime [toy_sample n] (toy_world n)")
  have "r = None"
    using n by (simp add: t)
  then show ?thesis
    by (simp add: notebook_def toy_initial_world t)
qed

text \<open>
  Claim C2 as stated fails where the comparison broadcasts. The notebook, run on a
  training set of one sample with one vertex and a test set of one sample with two
  vertices, predicts the index 0 for both vertices and compares the two predictions with
  the single entry 0 of the target: it counts two and returns 2. One of the two vertices
  is predicted its own index: the claim's value is 1.
\<close>

theorem test_accuracy_broadcast:
  "notebook toy_library toy_runtime [toy_sample 1] [toy_sample 2] = Inr 2 \<and>
   predict toy_library toy_runtime
     (snd (training_run toy_library toy_runtime [toy_sample 1] (toy_world 1))) (toy_sample 2) =
     Inr [0, 0] \<and>
   real (\<Sum>d\<leftarrow>[toy_sample 2]. correct_vertices (predict toy_library toy_runtime
     (snd (training_run toy_library toy_runtime [toy_sample 1] (toy_world 1))) d)) /
     real (length [toy_sample 2] * data_num_nodes (toy_sample 1)) = 1"
proof -
  define s where "s = snd (training_run toy_library toy_runtime [toy_sample 1] (toy_world 1))"
  have s: "net s = Net_init 1" "target s = [0..<1]" "num_nodes s = 1"
    using toy_trained [of 1 s "[0..<100]"] by (simp_all add: s_def training_run_def)
  have p: "predict toy_library toy_runtime s (toy_sample 2) = Inr [0, 0]"
    using toy_predict_1 [OF s(1), of 2] by (simp add: numeral_2_eq_2)
  have m: "sample_matches toy_library toy_runtime s (toy_sample 2) = Inr 2"
    by (simp add: sample_matches_def p s(2) eq_sum_def)
  have "fst (test toy_library toy_runtime [toy_sample 2] s) = Inr 2"
    unfolding test_value by (simp add: m s(3))
  then have a: "notebook toy_library toy_runtime [toy_sample 1] [toy_sample 2] = Inr 2"
    by (simp add: toy_notebook s_def)
  have c: "correct_vertices (predict toy_library toy_runtime s (toy_sample 2)) = 1"
    unfolding p by (simp add: correct_vertices_def)
  have n: "data_num_nodes (toy_sample 1) = 1"
    by (simp add: data_num_nodes_def toy_sample_def)
  have b: "real (\<Sum>d\<leftarrow>[toy_sample 2]. correct_vertices (predict toy_library toy_runtime s d)) /
     real (length [toy_sample 2] * data_num_nodes (toy_sample 1)) = 1"
    unfolding n by (simp add: c)
  show ?thesis
    unfolding s_def [symmetric] by (intro conjI a p b)
qed

lemma predict_width:
  assumes "predict lib rt s d = Inr pred"
  shows "0 < out_features (lin4 (net s))"
  using assms by (auto simp: predict_def max_dim1_indices_def split: sum.splits if_splits)

lemma predicted_matches:
  assumes "predicts_per_vertex lib rt s d" and "target s = [0..<num_nodes s]"
    and "data_num_nodes d = num_nodes s"
  shows "\<exists>m. sample_matches lib rt s d = Inr m \<and> m \<le> num_nodes s"
proof -
  obtain pred where p: "predict lib rt s d = Inr pred" "length pred = data_num_nodes d"
    using assms(1) by (auto simp: predicts_per_vertex_def split: sum.splits)
  have l: "length pred = num_nodes s"
    using p(2) assms(3) by simp
  then have e: "eq_sum pred [0..<num_nodes s] =
      Inr (length (filter (\<lambda>i. pred ! i = i) [0..<length pred]))"
    by (rule eq_sum_identity)
  have "length (filter (\<lambda>i. pred ! i = i) [0..<length pred]) \<le> length [0..<length pred]"
    by (rule length_filter_le)
  then have "length (filter (\<lambda>i. pred ! i = i) [0..<length pred]) \<le> num_nodes s"
    using l by simp
  then show ?thesis
    using e by (simp add: sample_matches_def p(1) assms(2))
qed

text \<open>
  Claim C9, as amended. \<open>num_nodes\<close> is the number of vertices of the first training
  sample, and the target has that length. Let \<^verbatim>\<open>test\<close> run in a state the training has
  reached, and let the model predict one index for every vertex of every test sample.
  If the test set is not empty and every test sample has as many vertices as the first
  training sample, then \<^verbatim>\<open>test\<close> returns a value, and it lies between 0 and 1. The
  condition on the vertex counts is not necessary for this, since the comparison with
  the target broadcasts; what is necessary for \<^verbatim>\<open>test\<close> to return a value is that every
  test sample has as many vertices as the first training sample or a single vertex, or
  that the first training sample has a single vertex.
\<close>

theorem accuracy_in_unit_interval:
  assumes "initial_world rt train_dataset = Inr s0"
    and "s = snd (epoch_loop lib rt train_dataset epochs s0)"
    and "\<forall>d \<in> set test_dataset. predicts_per_vertex lib rt s d"
  shows "num_nodes s = data_num_nodes (hd train_dataset) \<and>
     target s = [0..<data_num_nodes (hd train_dataset)] \<and>
     (test_dataset \<noteq> [] \<and>
      (\<forall>d \<in> set test_dataset. data_num_nodes d = data_num_nodes (hd train_dataset)) \<longrightarrow>
        (\<exists>r. fst (test lib rt test_dataset s) = Inr r \<and> 0 \<le> r \<and> r \<le> 1)) \<and>
     ((\<exists>r. fst (test lib rt test_dataset s) = Inr r) \<longrightarrow>
        (\<forall>d \<in> set test_dataset.
           data_num_nodes d = data_num_nodes (hd train_dataset) \<or> data_num_nodes d = 1 \<or>
           data_num_nodes (hd train_dataset) = 1))"
proof -
  have w: "num_nodes s = data_num_nodes (hd train_dataset)" "target s = [0..<num_nodes s]"
    "net s = Net_init (num_nodes s)"
    using reached_world [OF assms(1,2)] by simp_all
  have a: "\<exists>r. fst (test lib rt test_dataset s) = Inr r \<and> 0 \<le> r \<and> r \<le> 1"
    if ne: "test_dataset \<noteq> []"
      and eq: "\<forall>d \<in> set test_dataset. data_num_nodes d = data_num_nodes (hd train_dataset)"
  proof -
    define f where "f = (\<lambda>d. case sample_matches lib rt s d of Inl e \<Rightarrow> 0 | Inr m \<Rightarrow> m)"
    have m: "\<exists>m. sample_matches lib rt s d = Inr m \<and> m \<le> num_nodes s" if "d \<in> set test_dataset" for d
      using assms(3) eq that w(1,2) by (intro predicted_matches) simp_all
    have m1: "\<forall>d \<in> set test_dataset. \<exists>m. sample_matches lib rt s d = Inr m"
      using m by blast
    have "f d \<le> num_nodes s" if d: "d \<in> set test_dataset" for d
    proof -
      obtain k where "sample_matches lib rt s d = Inr k" "k \<le> num_nodes s"
        using m [OF d] by (elim exE conjE)
      then show ?thesis
        by (simp add: f_def)
    qed
    then have "\<forall>d \<in> set test_dataset. f d \<le> num_nodes s"
      by (rule ballI)
    then have b: "(\<Sum>d\<leftarrow>test_dataset. f d) \<le> length test_dataset * num_nodes s"
      by (rule sum_list_bound)
    have "hd test_dataset \<in> set test_dataset"
      using ne by simp
    then have "predicts_per_vertex lib rt s (hd test_dataset)"
      using assms(3) by blast
    then obtain pred where "predict lib rt s (hd test_dataset) = Inr pred"
      by (auto simp: predicts_per_vertex_def split: sum.splits)
    then have "0 < out_features (lin4 (net s))"
      by (rule predict_width)
    then have n: "0 < num_nodes s"
      using w(3) lin4_width [of "num_nodes s"] by simp
    have z: "length test_dataset * num_nodes s \<noteq> 0"
      using ne n by simp
    define r where "r = real (\<Sum>d\<leftarrow>test_dataset. f d) / real (length test_dataset * num_nodes s)"
    have "fst (test lib rt test_dataset s) = Inr r"
      unfolding test_value r_def f_def using m1 z by simp
    moreover have "0 \<le> r"
      by (simp add: r_def)
    moreover have "r \<le> 1"
    proof -
      have "real (\<Sum>d\<leftarrow>test_dataset. f d) \<le> real (length test_dataset * num_nodes s)"
        using b by (simp only: of_nat_le_iff)
      moreover have "0 < real (length test_dataset * num_nodes s)"
        using z by simp
      ultimately show ?thesis
        unfolding r_def by (simp only: divide_le_eq_1_pos)
    qed
    ultimately show ?thesis
      by (intro exI [of _ r] conjI)
  qed
  have b: "data_num_nodes d = data_num_nodes (hd train_dataset) \<or> data_num_nodes d = 1 \<or>
      data_num_nodes (hd train_dataset) = 1"
    if r: "\<exists>r. fst (test lib rt test_dataset s) = Inr r" and d: "d \<in> set test_dataset" for d
  proof -
    from r obtain r where "fst (test lib rt test_dataset s) = Inr r" ..
    then have "\<forall>d \<in> set test_dataset. \<exists>m. sample_matches lib rt s d = Inr m"
      unfolding test_value by (rule conjunct1)
    with d obtain m where m: "sample_matches lib rt s d = Inr m"
      by blast
    have "predicts_per_vertex lib rt s d"
      using assms(3) d by blast
    then obtain pred where p: "predict lib rt s d = Inr pred" "length pred = data_num_nodes d"
      by (auto simp: predicts_per_vertex_def split: sum.splits)
    have "eq_sum pred (target s) = Inr m"
      using m by (simp add: sample_matches_def p(1))
    then have "length pred = length (target s) \<or> length pred = 1 \<or> length (target s) = 1"
      by (rule eq_sum_lengths)
    then show ?thesis
      unfolding p(2) w(2) w(1) by simp
  qed
  show ?thesis
    using w(1,2) a b by simp
qed

theorem accuracy_in_unit_interval_witness:
  "initial_world toy_runtime [toy_sample 2] = Inr (toy_world 2) \<and>
   predicts_per_vertex toy_library toy_runtime
     (snd (epoch_loop toy_library toy_runtime [toy_sample 2] [0..<100] (toy_world 2))) (toy_sample 2) \<and>
   data_num_nodes (toy_sample 2) = data_num_nodes (hd [toy_sample 2]) \<and>
   (\<exists>r. fst (test toy_library toy_runtime [toy_sample 2, toy_sample 2]
      (snd (epoch_loop toy_library toy_runtime [toy_sample 2] [0..<100] (toy_world 2)))) = Inr r \<and>
      0 \<le> r \<and> r \<le> 1)"
proof -
  define s where "s = snd (epoch_loop toy_library toy_runtime [toy_sample 2] [0..<100] (toy_world 2))"
  have i: "initial_world toy_runtime [toy_sample 2] = Inr (toy_world 2)"
    by (rule toy_initial_world)
  have s: "net s = Net_init 2"
    using toy_trained [of 2 s "[0..<100]"] by (simp add: s_def)
  have p: "predict toy_library toy_runtime s (toy_sample 2) = Inr (replicate 2 1)"
    using s by (rule toy_predict_2) simp
  have n: "data_num_nodes (toy_sample 2) = 2"
    by (simp add: data_num_nodes_def toy_sample_def)
  have v: "predicts_per_vertex toy_library toy_runtime s (toy_sample 2)"
    unfolding predicts_per_vertex_def p n by simp
  have h: "\<forall>d \<in> set [toy_sample 2, toy_sample 2]. predicts_per_vertex toy_library toy_runtime s d"
    using v by simp
  have e: "data_num_nodes (toy_sample 2) = data_num_nodes (hd [toy_sample 2])"
    by simp
  have c: "[toy_sample 2, toy_sample 2] \<noteq> [] \<and>
      (\<forall>d \<in> set [toy_sample 2, toy_sample 2]. data_num_nodes d = data_num_nodes (hd [toy_sample 2]))"
    by simp
  note t = accuracy_in_unit_interval [OF i s_def h]
  have "\<exists>r. fst (test toy_library toy_runtime [toy_sample 2, toy_sample 2] s) = Inr r \<and> 0 \<le> r \<and> r \<le> 1"
    using t [THEN conjunct2, THEN conjunct2, THEN conjunct1] c by (rule mp)
  then show ?thesis
    unfolding s_def [symmetric] using i v e by (intro conjI)
qed

text \<open>
  Claim C9 as stated fails: the accuracy can be a value between 0 and 1 though a test
  sample has another vertex count than the first training sample. The notebook, run on
  a training set of one sample with two vertices and a test set of one sample with one
  vertex, predicts the index 1 for the vertex and compares this one prediction with both
  entries of the target: it counts one and returns 1/2. And the same vertex count does
  not make the accuracy defined: on an empty test set, whose samples all have the
  vertex count of the first training sample, the division raises.
\<close>

theorem accuracy_without_equal_counts:
  "notebook toy_library toy_runtime [toy_sample 2] [toy_sample 1] = Inr (1 / 2) \<and>
   data_num_nodes (toy_sample 1) = 1 \<and> data_num_nodes (hd [toy_sample 2]) = 2 \<and>
   notebook toy_library toy_runtime [toy_sample 2] [] = Inl ZeroDivisionError"
proof -
  define s where "s = snd (training_run toy_library toy_runtime [toy_sample 2] (toy_world 2))"
  have s: "net s = Net_init 2" "target s = [0..<2]" "num_nodes s = 2"
    using toy_trained [of 2 s "[0..<100]"] by (simp_all add: s_def training_run_def)
  have p: "predict toy_library toy_runtime s (toy_sample 1) = Inr (replicate 1 1)"
    using s(1) by (rule toy_predict_2) simp
  have u: "[0..<2] = [0, Suc 0]"
    by (simp add: numeral_2_eq_2)
  have "sample_matches toy_library toy_runtime s (toy_sample 1) = eq_sum (replicate 1 1) [0..<2]"
    unfolding sample_matches_def p s(2) by simp
  also have "\<dots> = Inr 1"
    unfolding u by (simp add: eq_sum_def)
  finally have m: "sample_matches toy_library toy_runtime s (toy_sample 1) = Inr 1" .
  have "fst (test toy_library toy_runtime [toy_sample 1] s) = Inr (1 / 2)"
    unfolding test_value using m by (simp add: s(3))
  then have a: "notebook toy_library toy_runtime [toy_sample 2] [toy_sample 1] = Inr (1 / 2)"
    by (simp add: toy_notebook s_def)
  have b: "data_num_nodes (toy_sample 1) = 1" "data_num_nodes (hd [toy_sample 2]) = 2"
    by (simp_all add: data_num_nodes_def toy_sample_def)
  have "fst (test toy_library toy_runtime [] s) = Inl ZeroDivisionError"
    by (simp add: test_def test_loader_def)
  then have c: "notebook toy_library toy_runtime [toy_sample 2] [] = Inl ZeroDivisionError"
    by (simp add: toy_notebook s_def)
  show ?thesis
    by (intro conjI a b c)
qed

end
